theory Spec2Isabelle
  imports Complex_Main
begin

section \<open>JavaScript values used by the daemon\<close>

text \<open>
  Strings are character lists. A thrown exception is a value: \<open>Inl err\<close>, where \<open>err\<close>
  carries the \<open>message\<close> of the JavaScript error object and, for errors raised by the process
  library, its \<open>stderr\<close> property.
\<close>

datatype js_error = JsError (message: string) (err_stderr: "string option")

type_synonym 'a throws = "js_error + 'a"

definition new_Error :: "string \<Rightarrow> js_error" where
  "new_Error msg = JsError msg None"

text \<open>\<open>s.split(sep)\<close> for a one-character separator: never empty, \<open>''''.split(sep) = ['''']\<close>.\<close>

fun split_on :: "char \<Rightarrow> string \<Rightarrow> string list" where
  "split_on sep [] = [[]]"
| "split_on sep (c # cs) =
     (if c = sep then [] # split_on sep cs
      else (case split_on sep cs of [] \<Rightarrow> [[c]] | r # rs \<Rightarrow> (c # r) # rs))"

definition startsWith :: "string \<Rightarrow> string \<Rightarrow> bool" where
  "startsWith s p = (take (length p) s = p)"

text \<open>\<open>xs.join(sep)\<close>.\<close>

fun join :: "string \<Rightarrow> string list \<Rightarrow> string" where
  "join sep [] = []"
| "join sep [x] = x"
| "join sep (x # y # ys) = x @ sep @ join sep (y # ys)"

text \<open>Decimal printing of an integer, as a template literal prints an integral number.\<close>

fun show_nat :: "nat \<Rightarrow> string" where
  "show_nat n =
     (if n < 10 then [''0123456789'' ! n]
      else show_nat (n div 10) @ [''0123456789'' ! (n mod 10)])"

definition show_int :: "int \<Rightarrow> string" where
  "show_int i = (if i < 0 then CHR ''-'' # show_nat (nat (- i)) else show_nat (nat i))"

text \<open>
  The line terminators that \<open>.\<close> of a regular expression does not match. Of the four of
  ECMAScript, the two that fit in one character of this string model.
\<close>

definition line_terminator :: "char \<Rightarrow> bool" where
  "line_terminator c = (c = CHR 0x0A \<or> c = CHR 0x0D)"

subsection \<open>Regular expressions\<close>

text \<open>
  \<open>new RegExp(source)\<close> either throws a SyntaxError (\<open>None\<close>) or gives an object whose
  \<open>test\<close> is a predicate on strings. The functions of the daemon take the constructor as a
  parameter, so that what is proved for every constructor holds for the one of the platform.

  \<open>js_RegExp\<close> is the constructor on the fragment the allow-list of a usual configuration
  stays in: a source \<open>^...$\<close> whose body is made of \<open>.*\<close>, \<open>.\<close> and characters that are not
  syntax characters of a pattern. On that fragment it is the ECMAScript semantics (no flags:
  anchors at the ends of the input, \<open>.\<close> any character but a line terminator). Outside the
  fragment it answers \<open>None\<close>; it is used only at concrete inputs inside the fragment.
\<close>

type_synonym regexp_ctor = "string \<Rightarrow> (string \<Rightarrow> bool) option"

datatype rx_item = Lit char | AnyChar | StarAny

definition syntax_character :: "char \<Rightarrow> bool" where
  "syntax_character c = (c \<in> set (CHR 0x5C # ''^$.*+?()[]{}|''))"

fun parse_rx :: "string \<Rightarrow> rx_item list option" where
  "parse_rx [] = Some []"
| "parse_rx (c # cs) =
     (if c = CHR ''.'' then
        (case cs of
           [] \<Rightarrow> Some [AnyChar]
         | d # ds \<Rightarrow>
             if d = CHR ''*'' then map_option ((#) StarAny) (parse_rx ds)
             else map_option ((#) AnyChar) (parse_rx cs))
      else if syntax_character c then None
      else map_option ((#) (Lit c)) (parse_rx cs))"

fun rx_match :: "rx_item list \<Rightarrow> string \<Rightarrow> bool" where
  "rx_match [] s = (s = [])"
| "rx_match (Lit c # r) [] = False"
| "rx_match (Lit c # r) (x # t) = (x = c \<and> rx_match r t)"
| "rx_match (AnyChar # r) [] = False"
| "rx_match (AnyChar # r) (x # t) = (\<not> line_terminator x \<and> rx_match r t)"
| "rx_match (StarAny # r) [] = rx_match r []"
| "rx_match (StarAny # r) (x # t) =
     (rx_match r (x # t) \<or> (\<not> line_terminator x \<and> rx_match (StarAny # r) t))"

definition js_RegExp :: regexp_ctor where
  "js_RegExp source =
     (case source of
        [] \<Rightarrow> None
      | c # rest \<Rightarrow>
          if c = CHR ''^'' \<and> rest \<noteq> [] \<and> last rest = CHR ''$''
          then map_option rx_match (parse_rx (butlast rest))
          else None)"

subsection \<open>Paths (module \<open>path\<close>, POSIX)\<close>

text \<open>
  \<open>path.normalize\<close>: the segments between slashes are walked from left to right; empty
  segments and \<open>.\<close> are dropped, \<open>..\<close> removes the segment before it unless there is none or
  it is itself \<open>..\<close> (then \<open>..\<close> is kept, for a relative path only); a trailing slash is kept.
\<close>

definition normalize_segment :: "bool \<Rightarrow> string list \<Rightarrow> string \<Rightarrow> string list" where
  "normalize_segment allowAboveRoot res seg =
     (if seg = [] \<or> seg = ''.'' then res
      else if seg = ''..'' then
        (if res \<noteq> [] \<and> last res \<noteq> ''..'' then butlast res
         else if allowAboveRoot then res @ [''..'']
         else res)
      else res @ [seg])"

definition normalizeString :: "string \<Rightarrow> bool \<Rightarrow> string" where
  "normalizeString path allowAboveRoot =
     join ''/'' (foldl (normalize_segment allowAboveRoot) [] (split_on (CHR ''/'') path))"

definition path_normalize :: "string \<Rightarrow> string" where
  "path_normalize path =
     (if path = [] then ''.''
      else
        let isAbsolute = (hd path = CHR ''/'');
            trailingSeparator = (last path = CHR ''/'');
            p = normalizeString path (\<not> isAbsolute)
        in if p = [] then (if isAbsolute then ''/'' else if trailingSeparator then ''./'' else ''.'')
           else
             let p' = (if trailingSeparator then p @ ''/'' else p)
             in if isAbsolute then CHR ''/'' # p' else p')"

text \<open>\<open>path.join(a, b)\<close>: the non-empty arguments joined by a slash, then normalized.\<close>

definition path_join :: "string \<Rightarrow> string \<Rightarrow> string" where
  "path_join a b =
     (let joined = (if a = [] then b else if b = [] then a else a @ ''/'' @ b)
      in if joined = [] then ''.'' else path_normalize joined)"

section \<open>The platform a cycle runs on\<close>

text \<open>
  Everything outside the daemon is an oracle over a world \<open>'w\<close>: the file system calls of
  \<open>fs\<close>, the process library \<open>execa\<close>, the three LLM providers, the text of the message
  the schema library builds for a value it rejects, and the text a number that is not an
  integer is printed as. A call takes the world and returns the new one. The theorems about
  the cycle hold for every world and every oracle.
\<close>

record cmd_result =
  stdout :: string
  stderr :: string
  exitCode :: int

datatype json =
    JNull
  | JBool bool
  | JNum rat
  | JStr string
  | JArr "json list"
  | JObj "(string \<times> json) list"

text \<open>
  A call of \<open>complete\<close>: the chunks the provider streamed to the callback, and how the
  call ended: the promise is rejected (\<open>Inl err\<close>), or it resolves to a text, which is
  given by what \<open>JSON.parse\<close> makes of it once the optional fence is taken off: the message
  of the SyntaxError it throws (\<open>Inr (Inl msg)\<close>) or the parsed value (\<open>Inr (Inr v)\<close>).
  The prompts sent to a provider are not built: the answer is any function of the world.
\<close>

record llm_response =
  chunks :: "string list"
  answer :: "(string + json) throws"

record 'w env =
  new_RegExp :: regexp_ctor
  existsSync :: "string \<Rightarrow> 'w \<Rightarrow> bool"
  readFileSync :: "string \<Rightarrow> 'w \<Rightarrow> string throws"
  writeFileSync :: "string \<Rightarrow> string \<Rightarrow> 'w \<Rightarrow> unit throws \<times> 'w"
  unlinkSync :: "string \<Rightarrow> 'w \<Rightarrow> unit throws \<times> 'w"
  execa :: "string \<Rightarrow> string list \<Rightarrow> bool \<Rightarrow> 'w \<Rightarrow> cmd_result throws \<times> 'w"
  builder_complete :: "'w \<Rightarrow> llm_response \<times> 'w"
  reviewer_complete :: "'w \<Rightarrow> llm_response \<times> 'w"
  moderator_complete :: "'w \<Rightarrow> llm_response \<times> 'w"
  safeParse_message :: "json \<Rightarrow> string"
  Number_toString :: "rat \<Rightarrow> string"

section \<open>WorkspaceTools\<close>

text \<open>\<open>allowed.replace(/\*/g, '.*')\<close>.\<close>

definition replace_stars :: "string \<Rightarrow> string" where
  "replace_stars allowed = concat (map (\<lambda>c. if c = CHR ''*'' then ''.*'' else [c]) allowed)"

text \<open>The callback of \<open>allowPaths.some\<close>, and \<open>some\<close> itself: left to right, stopping at the
  first pattern that answers true; a pattern whose regular expression does not compile throws.\<close>

fun some_allowed :: "regexp_ctor \<Rightarrow> string \<Rightarrow> string list \<Rightarrow> bool throws" where
  "some_allowed re normalized [] = Inr False"
| "some_allowed re normalized (allowed # rest) =
     (let allowedPattern = replace_stars allowed in
      case re (''^'' @ allowedPattern @ ''$'') of
        None \<Rightarrow> Inl (new_Error ''Invalid regular expression'')
      | Some test \<Rightarrow>
          if test normalized \<or> startsWith normalized allowed then Inr True
          else some_allowed re normalized rest)"

definition isPathAllowed :: "regexp_ctor \<Rightarrow> string list \<Rightarrow> string \<Rightarrow> bool throws" where
  "isPathAllowed re allowPaths filePath =
     (let normalized = path_normalize filePath in some_allowed re normalized allowPaths)"

definition readFile ::
  "'w env \<Rightarrow> string \<Rightarrow> string list \<Rightarrow> 'w \<Rightarrow> string \<Rightarrow> string throws" where
  "readFile env workspaceRoot allowPaths w filePath =
     (case isPathAllowed (new_RegExp env) allowPaths filePath of
        Inl err \<Rightarrow> Inl err
      | Inr ok \<Rightarrow>
          if \<not> ok then Inl (new_Error (''Path '' @ filePath @ '' is not in allowlist''))
          else
            let fullPath = path_join workspaceRoot filePath in
            if \<not> existsSync env fullPath w then Inl (new_Error (''File not found: '' @ filePath))
            else readFileSync env fullPath w)"

text \<open>\<open>result[filePath] = v\<close> on an object with string keys: in place if the key is there, at
  the end otherwise.\<close>

fun record_set :: "(string \<times> string) list \<Rightarrow> string \<Rightarrow> string \<Rightarrow> (string \<times> string) list" where
  "record_set [] k v = [(k, v)]"
| "record_set ((k', v') # r) k v = (if k' = k then (k, v) # r else (k', v') # record_set r k v)"

definition readFiles ::
  "'w env \<Rightarrow> string \<Rightarrow> string list \<Rightarrow> 'w \<Rightarrow> string list \<Rightarrow> (string \<times> string) list" where
  "readFiles env workspaceRoot allowPaths w filePaths =
     foldl (\<lambda>result filePath.
              record_set result filePath
                (case readFile env workspaceRoot allowPaths w filePath of
                   Inr content \<Rightarrow> content
                 | Inl err \<Rightarrow> ''ERROR: '' @ message err))
           [] filePaths"

text \<open>
  \<open>line.match(/^[+-]{3} [ab]\/(.+)$/)\<close>: the captured group, if the line matches. The group
  runs to the end of the line, so the rest of the line must be free of line terminators.
\<close>

definition header_match :: "string \<Rightarrow> string option" where
  "header_match line =
     (case line of
        c1 # c2 # c3 # c4 # c5 # c6 # rest \<Rightarrow>
          if (c1 = CHR ''+'' \<or> c1 = CHR ''-'') \<and> (c2 = CHR ''+'' \<or> c2 = CHR ''-'')
             \<and> (c3 = CHR ''+'' \<or> c3 = CHR ''-'') \<and> c4 = CHR '' ''
             \<and> (c5 = CHR ''a'' \<or> c5 = CHR ''b'') \<and> c6 = CHR ''/''
             \<and> rest \<noteq> [] \<and> list_all (\<lambda>c. \<not> line_terminator c) rest
          then Some rest else None
      | _ \<Rightarrow> None)"

definition patch_file_paths :: "string \<Rightarrow> string list" where
  "patch_file_paths patch =
     concat (map (\<lambda>line.
        if startsWith line ''--- '' \<or> startsWith line ''+++ '' then
          (case header_match line of
             Some p \<Rightarrow> if p \<noteq> ''/dev/null'' then [p] else []
           | None \<Rightarrow> [])
        else []) (split_on (CHR 0x0A) patch))"

record validation =
  valid :: bool
  v_error :: "string option"

fun check_paths :: "regexp_ctor \<Rightarrow> string list \<Rightarrow> string list \<Rightarrow> validation throws" where
  "check_paths re allowPaths [] = Inr \<lparr>valid = True, v_error = None\<rparr>"
| "check_paths re allowPaths (filePath # rest) =
     (case isPathAllowed re allowPaths filePath of
        Inl err \<Rightarrow> Inl err
      | Inr ok \<Rightarrow>
          if \<not> ok then
            Inr \<lparr>valid = False, v_error = Some (''Patch touches disallowed path: '' @ filePath)\<rparr>
          else check_paths re allowPaths rest)"

definition validatePatch :: "regexp_ctor \<Rightarrow> string list \<Rightarrow> string \<Rightarrow> validation throws" where
  "validatePatch re allowPaths patch = check_paths re allowPaths (patch_file_paths patch)"

record apply_result =
  success :: bool
  a_error :: "string option"

text \<open>\<open>err.stderr || err.message\<close>.\<close>

definition stderr_or_message :: "js_error \<Rightarrow> string" where
  "stderr_or_message err =
     (case err_stderr err of
        Some s \<Rightarrow> if s \<noteq> [] then s else message err
      | None \<Rightarrow> message err)"

definition apply_failed :: "js_error \<Rightarrow> apply_result" where
  "apply_failed err =
     \<lparr>success = False, a_error = Some (''Failed to apply patch: '' @ stderr_or_message err)\<rparr>"

text \<open>
  \<open>applyPatch\<close>. The validation is outside the \<open>try\<close>, so what it throws is thrown by
  \<open>applyPatch\<close>. \<open>execa\<close> is called with its default \<open>reject\<close> (\<open>True\<close>): it throws when the
  process exits with a code other than 0. The three statements of the \<open>try\<close> block run in
  order, and the first that throws goes to the \<open>catch\<close>.
\<close>

definition applyPatch ::
  "'w env \<Rightarrow> string \<Rightarrow> string list \<Rightarrow> string \<Rightarrow> 'w \<Rightarrow> apply_result throws \<times> 'w" where
  "applyPatch env workspaceRoot allowPaths patch w =
     (case validatePatch (new_RegExp env) allowPaths patch of
        Inl err \<Rightarrow> (Inl err, w)
      | Inr validation \<Rightarrow>
          if \<not> valid validation then
            (Inr \<lparr>success = False, a_error = v_error validation\<rparr>, w)
          else
            let tempPatchFile = path_join workspaceRoot ''.dualagent-temp.patch'' in
            (case writeFileSync env tempPatchFile patch w of
               (Inl err, w1) \<Rightarrow> (Inr (apply_failed err), w1)
             | (Inr _, w1) \<Rightarrow>
                 (case execa env ''git'' [''apply'', ''--whitespace=nowarn'', tempPatchFile] True w1 of
                    (Inl err, w2) \<Rightarrow> (Inr (apply_failed err), w2)
                  | (Inr _, w2) \<Rightarrow>
                      (case unlinkSync env tempPatchFile w2 of
                         (Inl err, w3) \<Rightarrow> (Inr (apply_failed err), w3)
                       | (Inr _, w3) \<Rightarrow> (Inr \<lparr>success = True, a_error = None\<rparr>, w3)))))"

text \<open>\<open>runCommand\<close>: \<open>execa\<close> with \<open>reject: false\<close>; what it still throws becomes exit code 1.\<close>

definition runCommand ::
  "'w env \<Rightarrow> string \<Rightarrow> string list \<Rightarrow> 'w \<Rightarrow> cmd_result \<times> 'w" where
  "runCommand env command args w =
     (case execa env command args False w of
        (Inr result, w') \<Rightarrow>
          (\<lparr>stdout = stdout result, stderr = stderr result, exitCode = exitCode result\<rparr>, w')
      | (Inl err, w') \<Rightarrow> (\<lparr>stdout = [], stderr = message err, exitCode = 1\<rparr>, w'))"

section \<open>Shared types (\<open>types.ts\<close>)\<close>

datatype provider = Openai | Anthropic

datatype review_mode = Always | Selective | Final_only

datatype review_strictness = Lenient | Balanced | Strict

text \<open>
  \<open>max_iterations\<close> is \<open>z.number()\<close>: any number, integral or not. Its values here are the
  finite numbers, each an exact rational. The iteration counter of a cycle is an integer, and
  is compared with it as a number.
\<close>

record config =
  builder_provider :: provider
  reviewer_provider :: provider
  builder_model :: string
  reviewer_model :: string
  test_command :: string
  allow_paths :: "string list"
  max_iterations :: rat
  review_mode :: review_mode
  review_on_test_pass :: bool
  enable_moderator :: bool
  moderator_provider :: "provider option"
  moderator_model :: "string option"
  context_summary_threshold :: int
  review_strictness :: review_strictness

record builder_message =
  files_needed :: "string list option"
  plan :: "string list option"
  patch :: "string option"
  tests :: "string list option"
  run :: "string list option"
  risks :: "string list option"

datatype severity = Critical | Major | Minor

record issue =
  severity :: severity
  description :: string
  how_to_verify :: "string option"
  issue_id :: "string option"
  uncertainty :: "bool option"

datatype verdict = Approve | Request_changes | Block

datatype block_reason = Definite_bug | Uncertainty | Needs_human

record review =
  verdict :: verdict
  issues :: "issue list"
  suggested_patch :: "string option"
  extra_tests :: "string list option"
  stopping :: string
  block_reason :: "block_reason option"
  diagnostics_needed :: "string list option"

datatype decision = Accept_builder | Accept_reviewer | Reject_both

record moderator_decision =
  decision :: decision
  reasoning :: string

datatype arbiter_outcome = Bug_confirmed | Bug_refuted | Test_invalid

record arbiter_test_result =
  test_added :: bool
  test_patch :: "string option"
  test_passed :: "bool option"
  outcome :: arbiter_outcome
  explanation :: string

datatype role = Builder | Reviewer | Moderator

datatype event =
    Status string
  | Stream_chunk role string
  | Patch_ready string
  | Tests_output cmd_result
  | Review_ready review
  | Moderator_decision moderator_decision
  | Arbiter_mode issue
  | Arbiter_result arbiter_test_result
  | Diagnostic_run "string list"
  | Cycle_complete bool string int
  | Error_event string

subsection \<open>The schemas\<close>

text \<open>
  \<open>schema.safeParse(value)\<close> on a value that \<open>JSON.parse\<close> returned: \<open>Some data\<close> on success.
  An object is the list of its keys and values; keys the schema does not name are dropped;
  \<open>.optional()\<close> accepts a key that is absent and nothing else in place of the value.
\<close>

definition z_string :: "json \<Rightarrow> string option" where
  "z_string j = (case j of JStr s \<Rightarrow> Some s | _ \<Rightarrow> None)"

definition z_boolean :: "json \<Rightarrow> bool option" where
  "z_boolean j = (case j of JBool b \<Rightarrow> Some b | _ \<Rightarrow> None)"

definition z_enum :: "(string \<times> 'a) list \<Rightarrow> json \<Rightarrow> 'a option" where
  "z_enum table j = (case j of JStr s \<Rightarrow> map_of table s | _ \<Rightarrow> None)"

definition z_array :: "(json \<Rightarrow> 'a option) \<Rightarrow> json \<Rightarrow> 'a list option" where
  "z_array element j = (case j of JArr xs \<Rightarrow> those (map element xs) | _ \<Rightarrow> None)"

definition optional :: "(json \<Rightarrow> 'a option) \<Rightarrow> json option \<Rightarrow> 'a option option" where
  "optional schema v = (case v of None \<Rightarrow> Some None | Some j \<Rightarrow> map_option Some (schema j))"

definition required :: "(json \<Rightarrow> 'a option) \<Rightarrow> json option \<Rightarrow> 'a option" where
  "required schema v = (case v of None \<Rightarrow> None | Some j \<Rightarrow> schema j)"

definition BuilderMessageSchema :: "json \<Rightarrow> builder_message option" where
  "BuilderMessageSchema j =
     (case j of
        JObj obj \<Rightarrow>
          Option.bind (optional (z_array z_string) (map_of obj ''files_needed'')) (\<lambda>f.
          Option.bind (optional (z_array z_string) (map_of obj ''plan'')) (\<lambda>p.
          Option.bind (optional z_string (map_of obj ''patch'')) (\<lambda>d.
          Option.bind (optional (z_array z_string) (map_of obj ''tests'')) (\<lambda>t.
          Option.bind (optional (z_array z_string) (map_of obj ''run'')) (\<lambda>r.
          Option.bind (optional (z_array z_string) (map_of obj ''risks'')) (\<lambda>k.
            Some \<lparr>files_needed = f, plan = p, patch = d, tests = t, run = r, risks = k\<rparr>))))))
      | _ \<Rightarrow> None)"

definition IssueSchema :: "json \<Rightarrow> issue option" where
  "IssueSchema j =
     (case j of
        JObj obj \<Rightarrow>
          Option.bind (required (z_enum [(''critical'', Critical), (''major'', Major),
                                         (''minor'', Minor)]) (map_of obj ''severity'')) (\<lambda>s.
          Option.bind (required z_string (map_of obj ''description'')) (\<lambda>d.
          Option.bind (optional z_string (map_of obj ''how_to_verify'')) (\<lambda>h.
          Option.bind (optional z_string (map_of obj ''issue_id'')) (\<lambda>i.
          Option.bind (optional z_boolean (map_of obj ''uncertainty'')) (\<lambda>u.
            Some \<lparr>severity = s, description = d, how_to_verify = h, issue_id = i,
                  uncertainty = u\<rparr>)))))
      | _ \<Rightarrow> None)"

definition ReviewSchema :: "json \<Rightarrow> review option" where
  "ReviewSchema j =
     (case j of
        JObj obj \<Rightarrow>
          Option.bind (required (z_enum [(''approve'', Approve),
                                         (''request_changes'', Request_changes),
                                         (''block'', Block)]) (map_of obj ''verdict'')) (\<lambda>v.
          Option.bind (required (z_array IssueSchema) (map_of obj ''issues'')) (\<lambda>i.
          Option.bind (optional z_string (map_of obj ''suggested_patch'')) (\<lambda>p.
          Option.bind (optional (z_array z_string) (map_of obj ''extra_tests'')) (\<lambda>t.
          Option.bind (required z_string (map_of obj ''stopping'')) (\<lambda>s.
          Option.bind (optional (z_enum [(''definite_bug'', Definite_bug),
                                         (''uncertainty'', Uncertainty),
                                         (''needs_human'', Needs_human)])
                         (map_of obj ''block_reason'')) (\<lambda>b.
          Option.bind (optional (z_array z_string) (map_of obj ''diagnostics_needed'')) (\<lambda>d.
            Some \<lparr>verdict = v, issues = i, suggested_patch = p, extra_tests = t, stopping = s,
                  block_reason = b, diagnostics_needed = d\<rparr>)))))))
      | _ \<Rightarrow> None)"

definition ModeratorDecisionSchema :: "json \<Rightarrow> moderator_decision option" where
  "ModeratorDecisionSchema j =
     (case j of
        JObj obj \<Rightarrow>
          Option.bind (required (z_enum [(''accept_builder'', Accept_builder),
                                         (''accept_reviewer'', Accept_reviewer),
                                         (''reject_both'', Reject_both)])
                         (map_of obj ''decision'')) (\<lambda>d.
          Option.bind (required z_string (map_of obj ''reasoning'')) (\<lambda>r.
            Some \<lparr>decision = d, reasoning = r\<rparr>))
      | _ \<Rightarrow> None)"

section \<open>The orchestrator (\<open>orchestrator.ts\<close>)\<close>

text \<open>
  The state of a cycle: the fields of the \<open>Orchestrator\<close> object that \<open>runCycle\<close> resets, the
  local variables of \<open>runCycle\<close>, the world, and the events given to the callback so far, in
  order. \<open>reviewer_calls\<close> is not in the source: it records the value of \<open>iteration\<close> at each
  call of the reviewer's provider.
\<close>

record 'w cycle =
  world :: 'w
  emitted :: "event list"
  patchHistory :: "string list"
  reviewHistory :: "review list"
  builderMessages :: "builder_message list"
  iteration :: int
  lastPatch :: string
  lastTestOutput :: "cmd_result option"
  openIssues :: "string list"
  reviewer_calls :: "int list"

definition emit :: "event \<Rightarrow> 'w cycle \<Rightarrow> 'w cycle" where
  "emit e s = s\<lparr>emitted := emitted s @ [e]\<rparr>"

text \<open>
  A number in a template literal: the decimal digits of an integer below \<open>10^21\<close>; the text
  of any other number is the platform's.
\<close>

definition show_number :: "'w env \<Rightarrow> rat \<Rightarrow> string" where
  "show_number env x =
     (if x = of_int \<lfloor>x\<rfloor> \<and> \<bar>x\<bar> < 10 ^ 21 then show_int \<lfloor>x\<rfloor> else Number_toString env x)"

text \<open>
  \<open>provider.complete(system, prompt, chunk => emit(stream_chunk))\<close>, followed by the first
  steps of \<open>parseJSON\<close> on the text: the result is the rejection, or what \<open>JSON.parse\<close> gave.
\<close>

definition complete ::
  "('w \<Rightarrow> llm_response \<times> 'w) \<Rightarrow> role \<Rightarrow> 'w cycle \<Rightarrow> (string + json) throws \<times> 'w cycle" where
  "complete provider_complete r s =
     (case provider_complete (world s) of
        (response, w') \<Rightarrow>
          (answer response,
           s\<lparr>world := w', emitted := emitted s @ map (Stream_chunk r) (chunks response)\<rparr>))"

text \<open>\<open>parseJSON\<close>, from the outcome of \<open>JSON.parse\<close> on: \<open>None\<close> is the \<open>null\<close> it returns.\<close>

definition parseJSON ::
  "'w env \<Rightarrow> (json \<Rightarrow> 'a option) \<Rightarrow> string + json \<Rightarrow> 'w cycle \<Rightarrow> 'a option \<times> 'w cycle" where
  "parseJSON env schema text s =
     (case text of
        Inr parsed_value \<Rightarrow>
          (case schema parsed_value of
             Some data \<Rightarrow> (Some data, s)
           | None \<Rightarrow>
               (None, emit (Error_event (''Schema validation failed: ''
                                         @ safeParse_message env parsed_value)) s))
      | Inl err_message \<Rightarrow>
          (None, emit (Error_event (''Failed to parse JSON: '' @ err_message)) s))"

text \<open>\<open>new Set(xs)\<close>, as the list of its elements in insertion order.\<close>

definition js_Set :: "'a list \<Rightarrow> 'a list" where
  "js_Set xs = foldl (\<lambda>acc x. if x \<in> set acc then acc else acc @ [x]) [] xs"

text \<open>
  \<open>patchSimilarity\<close>. The quotient of the two sizes is a double in the source and a rational
  here; the comparison with \<open>0.95\<close> that uses it agrees with the one on doubles for sets of
  fewer than \<open>2^48\<close> lines.
\<close>

definition patchSimilarity :: "string \<Rightarrow> string \<Rightarrow> rat" where
  "patchSimilarity patch1 patch2 =
     (if patch1 = patch2 then 1
      else
        let lines1 = js_Set (split_on (CHR 0x0A) patch1);
            lines2 = js_Set (split_on (CHR 0x0A) patch2);
            intersection = js_Set (filter (\<lambda>x. x \<in> set lines2) lines1);
            union = js_Set (lines1 @ lines2)
        in of_nat (length intersection) / of_nat (length union))"

text \<open>\<open>Math.round\<close>: to the nearest integer, halves upwards.\<close>

definition Math_round :: "rat \<Rightarrow> int" where
  "Math_round x = \<lfloor>x + 1 / 2\<rfloor>"

definition detectOscillation :: "string \<Rightarrow> 'w cycle \<Rightarrow> bool \<times> 'w cycle" where
  "detectOscillation currentPatch s =
     (if currentPatch \<in> set (patchHistory s) then
        (True, emit (Status ''Oscillation detected: identical patch repeated'') s)
      else if length (patchHistory s) \<ge> 2 then
        (let last_patch = patchHistory s ! (length (patchHistory s) - 1);
             similarity = patchSimilarity last_patch currentPatch
         in if similarity > 95 / 100 then
              (True, emit (Status (''Oscillation detected: patches are ''
                                   @ show_int (Math_round (similarity * 100)) @ ''% similar'')) s)
            else (False, s))
      else (False, s))"

text \<open>\<open>!x\<close> and \<open>x ? a : b\<close> on an optional string: absent and empty are both false.\<close>

definition truthy :: "string option \<Rightarrow> bool" where
  "truthy v = (case v of None \<Rightarrow> False | Some s \<Rightarrow> s \<noteq> [])"

definition findStuckIssues :: "review list \<Rightarrow> issue list" where
  "findStuckIssues history =
     (if length history < 2 then []
      else
        let lastReview = history ! (length history - 1);
            prevReview = history ! (length history - 2)
        in filter (\<lambda>issue.
             if \<not> truthy (issue_id issue) then False
             else list_ex (\<lambda>prevIssue.
                    issue_id prevIssue = issue_id issue
                    \<and> (severity prevIssue = Critical \<or> severity prevIssue = Major))
                  (issues prevReview))
           (issues lastReview))"

text \<open>
  \<open>const parts = cmd.split(' '); await tools.runCommand(parts[0], parts.slice(1));
  emit({type: 'tests_output', ...result})\<close>: the three statements every command line goes
  through. \<open>split\<close> never returns an empty array, so \<open>parts[0]\<close> is there.
\<close>

definition run_command_line :: "'w env \<Rightarrow> string \<Rightarrow> 'w cycle \<Rightarrow> cmd_result \<times> 'w cycle" where
  "run_command_line env cmd s =
     (let parts = split_on (CHR '' '') cmd in
      case runCommand env (hd parts) (tl parts) (world s) of
        (result, w') \<Rightarrow> (result, emit (Tests_output result) (s\<lparr>world := w'\<rparr>)))"

definition diagnostic_block :: "string \<Rightarrow> cmd_result \<Rightarrow> string" where
  "diagnostic_block cmd result =
     ''=== '' @ cmd @ '' ===\<newline>Exit code: '' @ show_int (exitCode result)
     @ ''\<newline>Stdout: '' @ stdout result @ ''\<newline>Stderr: '' @ stderr result @ ''\<newline>''"

fun diagnostics_loop :: "'w env \<Rightarrow> string list \<Rightarrow> 'w cycle \<Rightarrow> string list \<times> 'w cycle" where
  "diagnostics_loop env [] s = ([], s)"
| "diagnostics_loop env (cmd # rest) s =
     (case run_command_line env cmd s of
        (result, s1) \<Rightarrow>
          (case diagnostics_loop env rest s1 of
             (results, s2) \<Rightarrow> (diagnostic_block cmd result # results, s2)))"

definition runDiagnostics :: "'w env \<Rightarrow> string list \<Rightarrow> 'w cycle \<Rightarrow> string \<times> 'w cycle" where
  "runDiagnostics env commands s =
     (case diagnostics_loop env commands (emit (Diagnostic_run commands) s) of
        (results, s1) \<Rightarrow> (join ''\<newline>\<newline>'' results, s1))"

text \<open>The value of an optional string where the source reads it without a test.\<close>

definition or_undefined :: "string option \<Rightarrow> string" where
  "or_undefined v = (case v of Some s \<Rightarrow> s | None \<Rightarrow> ''undefined'')"

datatype arbiter_return = Confirmed | Refuted | Failed

text \<open>\<open>runArbiterMode\<close>: what it returns, or the exception that leaves it.\<close>

definition arbiter_run ::
  "'w env \<Rightarrow> string \<Rightarrow> builder_message \<Rightarrow> 'w cycle \<Rightarrow> arbiter_return \<times> 'w cycle" where
  "arbiter_run env test_patch_text builderMessage s =
     (case run builderMessage of
        Some (cmd # _) \<Rightarrow>
          (case run_command_line env cmd s of
             (testResult, s1) \<Rightarrow>
               let arbiterResult =
                     \<lparr>test_added = True,
                      test_patch = Some test_patch_text,
                      test_passed = Some (exitCode testResult = 0),
                      outcome = (if exitCode testResult = 0 then Bug_refuted else Bug_confirmed),
                      explanation =
                        (if exitCode testResult = 0
                         then ''Test passed - bug does not exist as described. Reviewer must downgrade severity or withdraw issue.''
                         else ''Test failed - bug confirmed. Builder must fix the implementation.'')\<rparr>
               in (if exitCode testResult = 0 then Refuted else Confirmed,
                   emit (Arbiter_result arbiterResult) s1))
      | _ \<Rightarrow> (Failed, s))"

definition runArbiterMode ::
  "'w env \<Rightarrow> config \<Rightarrow> string \<Rightarrow> issue \<Rightarrow> 'w cycle \<Rightarrow> arbiter_return throws \<times> 'w cycle" where
  "runArbiterMode env cfg workspaceRoot stuckIssue s =
     (let s1 = emit (Arbiter_mode stuckIssue) s;
          s2 = emit (Status (''Arbiter mode: Issue '' @ [CHR 0x22] @ or_undefined (issue_id stuckIssue)
                             @ [CHR 0x22] @ '' persists. Forcing test demonstration...'')) s1
      in case complete (builder_complete env) Builder s2 of
           (Inl err, s3) \<Rightarrow> (Inl err, s3)
         | (Inr builderResponse, s3) \<Rightarrow>
             (case parseJSON env BuilderMessageSchema builderResponse s3 of
                (None, s4) \<Rightarrow>
                  (Inr Failed, emit (Error_event ''Builder failed to provide arbiter test'') s4)
              | (Some builderMessage, s4) \<Rightarrow>
                  (case patch builderMessage of
                     None \<Rightarrow>
                       (Inr Failed, emit (Error_event ''Builder failed to provide arbiter test'') s4)
                   | Some p \<Rightarrow>
                       if p = [] then
                         (Inr Failed, emit (Error_event ''Builder failed to provide arbiter test'') s4)
                       else
                         (case validatePatch (new_RegExp env) (allow_paths cfg) p of
                            Inl err \<Rightarrow> (Inl err, s4)
                          | Inr validation \<Rightarrow>
                              if \<not> valid validation then
                                (Inr Failed,
                                 emit (Error_event (''Invalid arbiter test patch: ''
                                                    @ or_undefined (v_error validation))) s4)
                              else
                                (case applyPatch env workspaceRoot (allow_paths cfg) p (world s4) of
                                   (Inl err, w') \<Rightarrow> (Inl err, s4\<lparr>world := w'\<rparr>)
                                 | (Inr applyResult, w') \<Rightarrow>
                                     if \<not> success applyResult then
                                       (Inr Failed,
                                        emit (Error_event (''Failed to apply arbiter test: ''
                                                           @ or_undefined (a_error applyResult)))
                                             (s4\<lparr>world := w'\<rparr>))
                                     else
                                       (case arbiter_run env p builderMessage (s4\<lparr>world := w'\<rparr>) of
                                          (r, s5) \<Rightarrow> (Inr r, s5)))))))"

text \<open>\<open>this.moderatorProvider\<close> is set by the constructor under this condition.\<close>

definition moderatorProvider_set :: "config \<Rightarrow> bool" where
  "moderatorProvider_set cfg =
     (enable_moderator cfg \<and> moderator_provider cfg \<noteq> None \<and> truthy (moderator_model cfg))"

definition callModerator ::
  "'w env \<Rightarrow> config \<Rightarrow> 'w cycle \<Rightarrow> moderator_decision option \<times> 'w cycle" where
  "callModerator env cfg s =
     (if \<not> moderatorProvider_set cfg then
        (None, emit (Error_event ''Moderator not configured but was requested'') s)
      else
        let s1 = emit (Status ''Moderator: analyzing disagreement...'') s in
        case complete (moderator_complete env) Moderator s1 of
          (Inl err, s2) \<Rightarrow>
            (None, emit (Error_event (''Moderator failed: '' @ message err)) s2)
        | (Inr moderatorResponse, s2) \<Rightarrow>
            (case parseJSON env ModeratorDecisionSchema moderatorResponse s2 of
               (Some d, s3) \<Rightarrow> (Some d, emit (Moderator_decision d) s3)
             | (None, s3) \<Rightarrow> (None, s3)))"

definition shouldRunReviewer :: "config \<Rightarrow> int \<Rightarrow> bool \<Rightarrow> 'w cycle \<Rightarrow> bool \<times> 'w cycle" where
  "shouldRunReviewer cfg i testsPass s =
     (case review_mode cfg of
        Always \<Rightarrow> (True, s)
      | Final_only \<Rightarrow> (of_int i \<ge> max_iterations cfg, s)
      | Selective \<Rightarrow>
          if i = 1 \<and> testsPass \<and> \<not> review_on_test_pass cfg then
            (False, emit (Status ''Skipping review (tests passed on first try)'') s)
          else if \<not> testsPass then (True, s)
          else if of_int i \<ge> max_iterations cfg then (True, s)
          else (i mod 2 = 0, s))"

subsection \<open>One turn of the loop of \<open>runCycle\<close>\<close>

text \<open>
  How a turn of the \<open>while\<close> loop ends: at \<open>continue\<close> or at the end of the body, at
  \<open>return\<close>, or with an exception that nothing in \<open>runCycle\<close> catches.
\<close>

datatype 'a flow = Continue 'a | Return 'a | Threw js_error 'a

definition toUpperCase_severity :: "severity \<Rightarrow> string" where
  "toUpperCase_severity v =
     (case v of Critical \<Rightarrow> ''CRITICAL'' | Major \<Rightarrow> ''MAJOR'' | Minor \<Rightarrow> ''MINOR'')"

definition issue_line :: "issue \<Rightarrow> string" where
  "issue_line i =
     ''['' @ toUpperCase_severity (severity i) @ ''] '' @ description i
     @ (if truthy (how_to_verify i) then '' - Verify: '' @ or_undefined (how_to_verify i) else [])"

definition issues_with_suggestion :: "review \<Rightarrow> string list" where
  "issues_with_suggestion rv =
     map issue_line (issues rv)
     @ (if truthy (suggested_patch rv)
        then [''SUGGESTED_FIX:\<newline>'' @ or_undefined (suggested_patch rv)] else [])"

text \<open>The loop over the builder's \<open>run\<close> list, with its \<open>break\<close>.\<close>

fun run_list :: "'w env \<Rightarrow> string list \<Rightarrow> 'w cycle \<Rightarrow> 'w cycle" where
  "run_list env [] s = s"
| "run_list env (cmd # rest) s =
     (case run_command_line env cmd s of
        (result, s1) \<Rightarrow>
          let s2 = s1\<lparr>lastTestOutput := Some result\<rparr>
          in if exitCode result \<noteq> 0 then s2 else run_list env rest s2)"

text \<open>Step 3 of the body, up to the assignment of \<open>testsPass\<close>.\<close>

definition run_tests :: "'w env \<Rightarrow> config \<Rightarrow> builder_message \<Rightarrow> 'w cycle \<Rightarrow> 'w cycle" where
  "run_tests env cfg builderMessage s =
     (let s1 = emit (Status ''Running tests...'') s;
          s2 = s1\<lparr>lastTestOutput := Some \<lparr>stdout = [], stderr = [], exitCode = 0\<rparr>\<rparr>
      in case run builderMessage of
           Some (cmd # rest) \<Rightarrow> run_list env (cmd # rest) s2
         | _ \<Rightarrow>
             (case run_command_line env (test_command cfg) s2 of
                (result, s3) \<Rightarrow> s3\<lparr>lastTestOutput := Some result\<rparr>))"

definition cycle_complete :: "bool \<Rightarrow> string \<Rightarrow> 'w cycle \<Rightarrow> 'w cycle" where
  "cycle_complete ok msg s = emit (Cycle_complete ok msg (iteration s)) s"

text \<open>The check of the iteration limit that ends the \<open>request_changes\<close> branch.\<close>

definition max_iterations_check ::
  "'w env \<Rightarrow> config \<Rightarrow> review \<Rightarrow> 'w cycle \<Rightarrow> 'w cycle flow" where
  "max_iterations_check env cfg rv s =
     (if of_int (iteration s) \<ge> max_iterations cfg then
        let hasCriticalIssues =
              list_ex (\<lambda>i. severity i = Critical \<or> severity i = Major) (issues rv);
            reached = ''Reached max iterations ('' @ show_number env (max_iterations cfg) @ ''). ''
                      @ stopping rv
        in if enable_moderator cfg \<and> moderatorProvider_set cfg \<and> hasCriticalIssues then
             (case callModerator env cfg
                     (emit (Status ''Max iterations reached - consulting moderator'') s) of
                (Some d, s1) \<Rightarrow>
                  if decision d = Accept_builder then
                    Return (cycle_complete True
                              (''Moderator resolved at max iterations: '' @ reasoning d) s1)
                  else Return (cycle_complete False reached s1)
              | (None, s1) \<Rightarrow> Return (cycle_complete False reached s1))
           else Return (cycle_complete False reached s)
      else Continue s)"

definition request_changes ::
  "'w env \<Rightarrow> config \<Rightarrow> string \<Rightarrow> review \<Rightarrow> 'w cycle \<Rightarrow> 'w cycle flow" where
  "request_changes env cfg workspaceRoot rv s =
     (case findStuckIssues (reviewHistory s) of
        stuckIssue # _ \<Rightarrow>
          (case runArbiterMode env cfg workspaceRoot stuckIssue s of
             (Inl err, s1) \<Rightarrow> Threw err s1
           | (Inr Confirmed, s1) \<Rightarrow>
               max_iterations_check env cfg rv
                 ((emit (Status ''Arbiter confirmed bug - Builder must fix'') s1)
                    \<lparr>openIssues :=
                       [''[CRITICAL] Arbiter-confirmed bug: '' @ description stuckIssue,
                        ''How to verify: ''
                        @ (if truthy (how_to_verify stuckIssue)
                           then or_undefined (how_to_verify stuckIssue)
                           else ''See arbiter test'')]\<rparr>)
           | (Inr Refuted, s1) \<Rightarrow>
               max_iterations_check env cfg rv
                 ((emit (Status ''Arbiter refuted bug - removing from issues'') s1)
                    \<lparr>openIssues :=
                       map issue_line
                         (filter (\<lambda>i. issue_id i \<noteq> issue_id stuckIssue) (issues rv))\<rparr>)
           | (Inr Failed, s1) \<Rightarrow>
               Return (cycle_complete False
                         ''Arbiter mode failed - cannot resolve stuck issue'' s1))
      | [] \<Rightarrow>
          max_iterations_check env cfg rv
            ((emit (Status ''Reviewer requests changes - returning to Builder'') s)
               \<lparr>openIssues := issues_with_suggestion rv\<rparr>))"

text \<open>The branches on the verdict, from \<open>if (review.verdict === 'approve')\<close> to the end of
  the body. A \<open>block\<close> that none of the three inner tests takes falls to the end of the body.\<close>

definition interpret_review ::
  "'w env \<Rightarrow> config \<Rightarrow> string \<Rightarrow> review \<Rightarrow> 'w cycle \<Rightarrow> 'w cycle flow" where
  "interpret_review env cfg workspaceRoot rv s =
     (if verdict rv = Approve then
        Return (cycle_complete True (''Implementation approved! '' @ stopping rv) s)
      else if verdict rv = Block \<and> block_reason rv = Some Uncertainty
              \<and> diagnostics_needed rv \<noteq> None then
        (case runDiagnostics env (case diagnostics_needed rv of Some cs \<Rightarrow> cs | None \<Rightarrow> [])
                (emit (Status ''Reviewer uncertain - running diagnostics...'') s) of
           (diagnosticsOutput, s1) \<Rightarrow>
             let s2 = s1\<lparr>openIssues := openIssues s1 @ [''DIAGNOSTICS RUN:\<newline>'' @ diagnosticsOutput]\<rparr>;
                 s3 = emit (Status ''Diagnostics complete - re-running reviewer with results'') s2
             in Continue (s3\<lparr>iteration := iteration s3 - 1\<rparr>))
      else if verdict rv = Block \<and> block_reason rv = Some Definite_bug then
        (let s1 = emit (Status ''Reviewer found definite bugs - returning to Builder'') s;
             s2 = s1\<lparr>openIssues := issues_with_suggestion rv\<rparr>
         in if of_int (iteration s2) \<ge> max_iterations cfg then
              Return (cycle_complete False (''Max iterations reached. '' @ stopping rv) s2)
            else Continue s2)
      else if verdict rv = Block \<and> block_reason rv = Some Needs_human then
        Return (cycle_complete False (''Reviewer blocked (needs human): '' @ stopping rv) s)
      else if verdict rv = Request_changes then request_changes env cfg workspaceRoot rv s
      else Continue s)"

text \<open>What \<open>runCycle\<close> does with the text the reviewer's provider resolved to.\<close>

definition handle_review_response ::
  "'w env \<Rightarrow> config \<Rightarrow> string \<Rightarrow> string + json \<Rightarrow> 'w cycle \<Rightarrow> 'w cycle flow" where
  "handle_review_response env cfg workspaceRoot reviewerResponse s =
     (case parseJSON env ReviewSchema reviewerResponse s of
        (None, s1) \<Rightarrow> Return (emit (Error_event ''Reviewer produced invalid response'') s1)
      | (Some rv, s1) \<Rightarrow>
          interpret_review env cfg workspaceRoot rv
            (emit (Review_ready rv) (s1\<lparr>reviewHistory := reviewHistory s1 @ [rv]\<rparr>)))"

text \<open>Step 4: the reviewer, if \<open>shouldRunReviewer\<close> says so, and the branches on its verdict.\<close>

definition review_phase ::
  "'w env \<Rightarrow> config \<Rightarrow> string \<Rightarrow> 'w cycle \<Rightarrow> 'w cycle flow" where
  "review_phase env cfg workspaceRoot s =
     (case shouldRunReviewer cfg (iteration s) True s of
        (True, s1) \<Rightarrow>
          (let s2 = emit (Status ''Reviewer: analyzing implementation...'') s1;
               s3 = s2\<lparr>reviewer_calls := reviewer_calls s2 @ [iteration s2]\<rparr>
           in case complete (reviewer_complete env) Reviewer s3 of
                (Inl err, s4) \<Rightarrow> Threw err s4
              | (Inr reviewerResponse, s4) \<Rightarrow>
                  handle_review_response env cfg workspaceRoot reviewerResponse s4)
      | (False, s1) \<Rightarrow>
          interpret_review env cfg workspaceRoot
            \<lparr>verdict = Approve, issues = [], suggested_patch = None, extra_tests = None,
             stopping = ''Tests passed and review was skipped per configuration'',
             block_reason = None, diagnostics_needed = None\<rparr> s1)"

text \<open>Step 3 and the test on \<open>testsPass\<close>.\<close>

definition tests_phase ::
  "'w env \<Rightarrow> config \<Rightarrow> string \<Rightarrow> builder_message \<Rightarrow> 'w cycle \<Rightarrow> 'w cycle flow" where
  "tests_phase env cfg workspaceRoot builderMessage s =
     (let s1 = run_tests env cfg builderMessage s;
          output = (case lastTestOutput s1 of Some r \<Rightarrow> r
                    | None \<Rightarrow> \<lparr>stdout = [], stderr = [], exitCode = 0\<rparr>);
          testsPass = (exitCode output = 0)
      in if \<not> testsPass then
           (let s2 = emit (Status ''Tests failed - returning to Builder to fix'') s1;
                s3 = s2\<lparr>openIssues :=
                          [''[CRITICAL] Tests failing - Exit code '' @ show_int (exitCode output),
                           ''Stdout: '' @ stdout output,
                           ''Stderr: '' @ stderr output]\<rparr>
            in if of_int (iteration s3) \<ge> max_iterations cfg then
                 Return (cycle_complete False ''Max iterations reached with failing tests.'' s3)
               else Continue s3)
         else review_phase env cfg workspaceRoot s1)"

definition oscillation_failure :: "'w cycle \<Rightarrow> 'w cycle" where
  "oscillation_failure s =
     cycle_complete False
       ''Oscillation detected - agents cannot converge. Human intervention needed.'' s"

text \<open>From \<open>lastPatch = builderMessage.patch\<close> to the application of the patch.\<close>

definition patch_phase ::
  "'w env \<Rightarrow> config \<Rightarrow> string \<Rightarrow> builder_message \<Rightarrow> string \<Rightarrow> 'w cycle \<Rightarrow> 'w cycle flow" where
  "patch_phase env cfg workspaceRoot builderMessage p s =
     (case detectOscillation p (emit (Patch_ready p) (s\<lparr>lastPatch := p\<rparr>)) of
        (True, s1) \<Rightarrow>
          if enable_moderator cfg \<and> length (reviewHistory s1) > 0 then
            (case callModerator env cfg s1 of
               (Some d, s2) \<Rightarrow>
                 if decision d = Accept_builder then
                   Return (cycle_complete True (''Moderator resolved: '' @ reasoning d) s2)
                 else Return (oscillation_failure s2)
             | (None, s2) \<Rightarrow> Return (oscillation_failure s2))
          else Return (oscillation_failure s1)
      | (False, s1) \<Rightarrow>
          (let s2 = s1\<lparr>patchHistory := patchHistory s1 @ [p]\<rparr>;
               s3 = emit (Status ''Validating patch...'') s2
           in case validatePatch (new_RegExp env) (allow_paths cfg) p of
                Inl err \<Rightarrow> Threw err s3
              | Inr validation \<Rightarrow>
                  if \<not> valid validation then
                    Return (emit (Error_event (or_undefined (v_error validation))) s3)
                  else
                    (case applyPatch env workspaceRoot (allow_paths cfg) p
                            (world (emit (Status ''Applying patch...'') s3)) of
                       (Inl err, w') \<Rightarrow>
                         Threw err ((emit (Status ''Applying patch...'') s3)\<lparr>world := w'\<rparr>)
                     | (Inr applyResult, w') \<Rightarrow>
                         if \<not> success applyResult then
                           Return (emit (Error_event (or_undefined (a_error applyResult)))
                                     ((emit (Status ''Applying patch...'') s3)\<lparr>world := w'\<rparr>))
                         else
                           tests_phase env cfg workspaceRoot builderMessage
                             ((emit (Status ''Applying patch...'') s3)\<lparr>world := w'\<rparr>))))"

text \<open>The body of the \<open>while\<close> loop, entered when \<open>iteration < max_iterations\<close>.\<close>

definition loop_body :: "'w env \<Rightarrow> config \<Rightarrow> string \<Rightarrow> 'w cycle \<Rightarrow> 'w cycle flow" where
  "loop_body env cfg workspaceRoot s0 =
     (let s1 = s0\<lparr>iteration := iteration s0 + 1\<rparr>;
          s2 = emit (Status (''Iteration '' @ show_int (iteration s1) @ ''/''
                             @ show_number env (max_iterations cfg))) s1;
          s3 = emit (Status ''Builder: analyzing request...'') s2
      in case complete (builder_complete env) Builder s3 of
           (Inl err, s4) \<Rightarrow> Threw err s4
         | (Inr builderResponse, s4) \<Rightarrow>
             (case parseJSON env BuilderMessageSchema builderResponse s4 of
                (None, s5) \<Rightarrow> Return (emit (Error_event ''Builder produced invalid response'') s5)
              | (Some builderMessage, s5) \<Rightarrow>
                  (let s6 = s5\<lparr>builderMessages := builderMessages s5 @ [builderMessage]\<rparr> in
                   case files_needed builderMessage of
                     Some (f # fs) \<Rightarrow>
                       (let s7 = emit (Status (''Builder needs files: '' @ join '', '' (f # fs))) s6;
                            files = readFiles env workspaceRoot (allow_paths cfg) (world s7) (f # fs);
                            fileContext =
                              join ''\<newline>\<newline>''
                                (map (\<lambda>(path, content). ''=== '' @ path @ '' ===\<newline>'' @ content) files)
                        in Continue (s7\<lparr>openIssues :=
                                          openIssues s7 @ [''Files provided: '' @ join '', '' (f # fs)]\<rparr>))
                   | _ \<Rightarrow>
                       (case patch builderMessage of
                          None \<Rightarrow> Return (emit (Error_event ''Builder did not provide a patch'') s6)
                        | Some p \<Rightarrow>
                            if p = [] then
                              Return (emit (Error_event ''Builder did not provide a patch'') s6)
                            else patch_phase env cfg workspaceRoot builderMessage p s6))))"

subsection \<open>\<open>runCycle\<close>\<close>

text \<open>
  How far a cycle has come: \<open>runCycle\<close> has returned at a \<open>return\<close> statement of its loop
  (\<open>Returned\<close>), it has returned because the condition of the loop was false (\<open>Loop_ended\<close>),
  an exception has left it, or it is still in its loop after the number of turns that were
  asked for.
\<close>

datatype 'a ending = Returned 'a | Loop_ended 'a | Thrown js_error 'a | Running 'a

fun ending_state :: "'a ending \<Rightarrow> 'a" where
  "ending_state (Returned s) = s"
| "ending_state (Loop_ended s) = s"
| "ending_state (Thrown err s) = s"
| "ending_state (Running s) = s"

fun has_returned :: "'a ending \<Rightarrow> bool" where
  "has_returned (Returned s) = True"
| "has_returned (Loop_ended s) = True"
| "has_returned (Thrown err s) = False"
| "has_returned (Running s) = False"

fun cycle_loop :: "nat \<Rightarrow> 'w env \<Rightarrow> config \<Rightarrow> string \<Rightarrow> 'w cycle \<Rightarrow> 'w cycle ending" where
  "cycle_loop 0 env cfg workspaceRoot s =
     (if of_int (iteration s) < max_iterations cfg then Running s else Loop_ended s)"
| "cycle_loop (Suc n) env cfg workspaceRoot s =
     (if of_int (iteration s) < max_iterations cfg then
        (case loop_body env cfg workspaceRoot s of
           Continue s' \<Rightarrow> cycle_loop n env cfg workspaceRoot s'
         | Return s' \<Rightarrow> Returned s'
         | Threw err s' \<Rightarrow> Thrown err s')
      else Loop_ended s)"

text \<open>The state \<open>runCycle\<close> enters its loop with.\<close>

definition start_cycle :: "'w \<Rightarrow> 'w cycle" where
  "start_cycle w =
     \<lparr>world = w,
      emitted = [Status ''Starting build/review cycle...''],
      patchHistory = [], reviewHistory = [], builderMessages = [],
      iteration = 0, lastPatch = [], lastTestOutput = None, openIssues = [],
      reviewer_calls = []\<rparr>"

text \<open>\<open>runCycle\<close>, followed for at most \<open>turns\<close> turns of its loop.\<close>

definition runCycle :: "nat \<Rightarrow> 'w env \<Rightarrow> config \<Rightarrow> string \<Rightarrow> 'w \<Rightarrow> 'w cycle ending" where
  "runCycle turns env cfg workspaceRoot w = cycle_loop turns env cfg workspaceRoot (start_cycle w)"

text \<open>The terminal events of the event channel.\<close>

fun terminal :: "event \<Rightarrow> bool" where
  "terminal (Cycle_complete ok msg n) = True"
| "terminal (Error_event msg) = True"
| "terminal e = False"

fun is_cycle_complete :: "event \<Rightarrow> bool" where
  "is_cycle_complete (Cycle_complete ok msg n) = True"
| "is_cycle_complete e = False"

fun is_success :: "event \<Rightarrow> bool" where
  "is_success (Cycle_complete ok msg n) = ok"
| "is_success e = False"

section \<open>A scripted platform, for concrete runs\<close>

text \<open>
  A world that holds a disk and the answers the providers and the processes will give, in
  the order of the calls. \<open>execa\<close> with \<open>reject\<close> throws on an exit code other than 0, the
  error carrying the \<open>stderr\<close> of the process.
\<close>

record script =
  disk :: "(string \<times> string) list"
  builder_answers :: "llm_response list"
  reviewer_answers :: "llm_response list"
  moderator_answers :: "llm_response list"
  process_results :: "cmd_result throws list"

definition no_answer :: llm_response where
  "no_answer = \<lparr>chunks = [], answer = Inl (new_Error ''no answer'')\<rparr>"

definition scripted_execa ::
  "string \<Rightarrow> string list \<Rightarrow> bool \<Rightarrow> script \<Rightarrow> cmd_result throws \<times> script" where
  "scripted_execa command args reject w =
     (case process_results w of
        [] \<Rightarrow> (Inl (new_Error ''spawn ENOENT''), w)
      | r # rs \<Rightarrow>
          (case r of
             Inl err \<Rightarrow> (Inl err, w\<lparr>process_results := rs\<rparr>)
           | Inr result \<Rightarrow>
               if reject \<and> exitCode result \<noteq> 0 then
                 (Inl (JsError (''Command failed with exit code '' @ show_int (exitCode result))
                         (Some (stderr result))),
                  w\<lparr>process_results := rs\<rparr>)
               else (Inr result, w\<lparr>process_results := rs\<rparr>)))"

text \<open>A number with a short decimal expansion, printed with its digits after the point.\<close>

fun fraction_digits :: "nat \<Rightarrow> rat \<Rightarrow> string" where
  "fraction_digits 0 r = []"
| "fraction_digits (Suc n) r =
     (if r = 0 then []
      else show_int \<lfloor>r * 10\<rfloor> @ fraction_digits n (r * 10 - of_int \<lfloor>r * 10\<rfloor>))"

definition decimal_text :: "rat \<Rightarrow> string" where
  "decimal_text x =
     (if x < 0 then ''-'' else [])
     @ show_int \<lfloor>\<bar>x\<bar>\<rfloor> @ ''.'' @ fraction_digits 17 (\<bar>x\<bar> - of_int \<lfloor>\<bar>x\<bar>\<rfloor>)"

definition scripted :: "script env" where
  "scripted =
     \<lparr>new_RegExp = js_RegExp,
      existsSync = (\<lambda>p w. map_of (disk w) p \<noteq> None),
      readFileSync = (\<lambda>p w. case map_of (disk w) p of
                               Some c \<Rightarrow> Inr c
                             | None \<Rightarrow> Inl (new_Error ''ENOENT'')),
      writeFileSync = (\<lambda>p c w. (Inr (), w\<lparr>disk := (p, c) # filter (\<lambda>e. fst e \<noteq> p) (disk w)\<rparr>)),
      unlinkSync = (\<lambda>p w. case map_of (disk w) p of
                             Some c \<Rightarrow> (Inr (), w\<lparr>disk := filter (\<lambda>e. fst e \<noteq> p) (disk w)\<rparr>)
                           | None \<Rightarrow> (Inl (new_Error ''ENOENT''), w)),
      execa = scripted_execa,
      builder_complete = (\<lambda>w. case builder_answers w of
                                 [] \<Rightarrow> (no_answer, w)
                               | a # r \<Rightarrow> (a, w\<lparr>builder_answers := r\<rparr>)),
      reviewer_complete = (\<lambda>w. case reviewer_answers w of
                                  [] \<Rightarrow> (no_answer, w)
                                | a # r \<Rightarrow> (a, w\<lparr>reviewer_answers := r\<rparr>)),
      moderator_complete = (\<lambda>w. case moderator_answers w of
                                   [] \<Rightarrow> (no_answer, w)
                                 | a # r \<Rightarrow> (a, w\<lparr>moderator_answers := r\<rparr>)),
      safeParse_message = (\<lambda>v. ''invalid''),
      Number_toString = decimal_text\<rparr>"

definition script_of ::
  "llm_response list \<Rightarrow> llm_response list \<Rightarrow> cmd_result throws list \<Rightarrow> script" where
  "script_of builder reviewer processes =
     \<lparr>disk = [], builder_answers = builder, reviewer_answers = reviewer,
      moderator_answers = [], process_results = processes\<rparr>"

definition says :: "json \<Rightarrow> llm_response" where
  "says v = \<lparr>chunks = [], answer = Inr (Inr v)\<rparr>"

definition exits :: "int \<Rightarrow> cmd_result throws" where
  "exits code = Inr \<lparr>stdout = [], stderr = [], exitCode = code\<rparr>"

definition example_config :: "rat \<Rightarrow> review_mode \<Rightarrow> config" where
  "example_config n mode =
     \<lparr>builder_provider = Openai, reviewer_provider = Anthropic,
      builder_model = ''b'', reviewer_model = ''r'',
      test_command = ''npm test'', allow_paths = [''src/**/*.ts''],
      max_iterations = n, review_mode = mode, review_on_test_pass = True,
      enable_moderator = False, moderator_provider = None, moderator_model = None,
      context_summary_threshold = 2000, review_strictness = Balanced\<rparr>"

text \<open>Answers of the agents used in the concrete runs.\<close>

definition files_request :: json where
  "files_request = JObj [(''files_needed'', JArr [JStr ''src/a.ts''])]"

definition first_patch :: json where
  "first_patch =
     JObj [(''patch'', JStr ''--- a/src/sub/a.ts\<newline>+++ b/src/sub/a.ts\<newline>+x'')]"

definition second_patch :: json where
  "second_patch =
     JObj [(''patch'', JStr ''--- a/src/sub/a.ts\<newline>+++ b/src/sub/a.ts\<newline>+y'')]"

definition third_patch :: json where
  "third_patch =
     JObj [(''patch'', JStr ''--- a/src/sub/a.ts\<newline>+++ b/src/sub/a.ts\<newline>+z'')]"

definition uncertain_review :: json where
  "uncertain_review =
     JObj [(''verdict'', JStr ''block''), (''issues'', JArr []), (''stopping'', JStr ''unsure''),
           (''block_reason'', JStr ''uncertainty''),
           (''diagnostics_needed'', JArr [JStr ''npm run lint''])]"

definition approving_review :: json where
  "approving_review =
     JObj [(''verdict'', JStr ''approve''), (''issues'', JArr []), (''stopping'', JStr ''fine'')]"

section \<open>Specification-side notions\<close>

text \<open>The set of lines of a patch and the Jaccard similarity of two sets.\<close>

definition line_set :: "string \<Rightarrow> string set" where
  "line_set p = set (split_on (CHR 0x0A) p)"

definition jaccard :: "'a set \<Rightarrow> 'a set \<Rightarrow> rat" where
  "jaccard A B = of_nat (card (A \<inter> B)) / of_nat (card (A \<union> B))"

text \<open>The test of the OSCILLATION-CHECK state as the specification words it.\<close>

definition stuck_as_specified :: "string list \<Rightarrow> string \<Rightarrow> bool" where
  "stuck_as_specified history p =
     (p \<in> set history
      \<or> (history \<noteq> [] \<and> jaccard (line_set (last history)) (line_set p) \<ge> 95 / 100))"






text \<open>
  The RUN state as the specification words it. Each command line of a list is split at its
  spaces and started as a process by \<open>execa\<close> (first word the command, the other words its
  arguments, \<open>reject: false\<close>), one after the other, each in the world its predecessor left;
  the output of a command is what its process gave, or exit code 1 with the message of the
  error when no process could be started. \<open>upto_first_failure\<close> is the part of such a run
  that ends with the first exit code other than 0.
\<close>

fun run_in_order :: "'w env \<Rightarrow> string list \<Rightarrow> 'w \<Rightarrow> (cmd_result \<times> 'w) list" where
  "run_in_order env [] w = []"
| "run_in_order env (cmd # rest) w =
     (let parts = split_on (CHR '' '') cmd in
      case execa env (hd parts) (tl parts) False w of
        (Inr result, w') \<Rightarrow> (result, w') # run_in_order env rest w'
      | (Inl err, w') \<Rightarrow>
          (\<lparr>stdout = [], stderr = message err, exitCode = 1\<rparr>, w') # run_in_order env rest w')"

definition upto_first_failure :: "(cmd_result \<times> 'w) list \<Rightarrow> (cmd_result \<times> 'w) list" where
  "upto_first_failure rs = take (Suc (length (takeWhile (\<lambda>r. exitCode (fst r) = 0) rs))) rs"

definition commands_to_run :: "config \<Rightarrow> builder_message \<Rightarrow> string list" where
  "commands_to_run cfg builderMessage =
     (case run builderMessage of Some (cmd # rest) \<Rightarrow> cmd # rest | _ \<Rightarrow> [test_command cfg])"

section \<open>Notions for the proofs about a cycle\<close>

text \<open>
  \<open>extends errs s s'\<close>: from \<open>s\<close> to \<open>s'\<close> events were emitted, none of them terminal (if
  \<open>errs\<close>: none of them \<open>cycle_complete\<close>), and the patch history, the iteration counter and
  the record of reviewer calls are the same.

  \<open>advances cfg final may_review may_patch s s'\<close> is what a part of a turn may do. It emits
  events: none of them terminal if the turn goes on; if it returns, the last one is
  terminal, no other is \<open>cycle_complete\<close>, and no other is terminal when the last one
  reports success. It may take one from the counter; if \<open>may_review\<close>, call the reviewer
  once, at the current value of the counter, which in mode \<open>final_only\<close> is at least
  \<open>max_iterations\<close>; if \<open>may_patch\<close>, append one patch that the history did not hold.
\<close>

definition no_terminal :: "event list \<Rightarrow> bool" where
  "no_terminal es = list_all (\<lambda>e. \<not> terminal e) es"

definition quiet_events :: "event list \<Rightarrow> bool" where
  "quiet_events es = list_all (\<lambda>e. \<not> is_cycle_complete e) es"

definition ends_well :: "event list \<Rightarrow> bool" where
  "ends_well es \<longleftrightarrow>
     es \<noteq> [] \<and> terminal (last es) \<and> quiet_events (butlast es)
     \<and> (is_success (last es) \<longrightarrow> no_terminal (butlast es))"

definition extends :: "bool \<Rightarrow> 'w cycle \<Rightarrow> 'w cycle \<Rightarrow> bool" where
  "extends errs s s' \<longleftrightarrow>
     (\<exists>es. emitted s' = emitted s @ es \<and> (if errs then quiet_events es else no_terminal es))
     \<and> patchHistory s' = patchHistory s
     \<and> iteration s' = iteration s
     \<and> reviewer_calls s' = reviewer_calls s"

definition advances ::
  "config \<Rightarrow> bool \<Rightarrow> bool \<Rightarrow> bool \<Rightarrow> 'w cycle \<Rightarrow> 'w cycle \<Rightarrow> bool" where
  "advances cfg final may_review may_patch s s' \<longleftrightarrow>
     (\<exists>es. emitted s' = emitted s @ es \<and> (if final then ends_well es else no_terminal es))
     \<and> (patchHistory s' = patchHistory s
          \<or> (may_patch
              \<and> (\<exists>p. p \<notin> set (patchHistory s) \<and> patchHistory s' = patchHistory s @ [p])))
     \<and> (iteration s' = iteration s \<or> iteration s' = iteration s - 1)
     \<and> (reviewer_calls s' = reviewer_calls s
          \<or> (may_review
              \<and> reviewer_calls s' = reviewer_calls s @ [iteration s]
              \<and> (review_mode cfg = Final_only \<longrightarrow>
                    max_iterations cfg \<le> of_int (iteration s))))"

fun flow_ok :: "config \<Rightarrow> bool \<Rightarrow> bool \<Rightarrow> 'w cycle \<Rightarrow> 'w cycle flow \<Rightarrow> bool" where
  "flow_ok cfg may_review may_patch s (Continue s') = advances cfg False may_review may_patch s s'"
| "flow_ok cfg may_review may_patch s (Threw err s') = advances cfg False may_review may_patch s s'"
| "flow_ok cfg may_review may_patch s (Return s') = advances cfg True may_review may_patch s s'"

text \<open>What holds of the state at the head of every turn, and of the state a cycle ends in.\<close>

definition cycle_inv :: "config \<Rightarrow> bool \<Rightarrow> 'w cycle \<Rightarrow> bool" where
  "cycle_inv cfg final s \<longleftrightarrow>
     (if final then ends_well (emitted s) else no_terminal (emitted s))
     \<and> distinct (patchHistory s)
     \<and> (review_mode cfg = Final_only \<longrightarrow>
            list_all (\<lambda>i. max_iterations cfg \<le> of_int i \<and> of_int i < max_iterations cfg + 1)
              (reviewer_calls s))"

section \<open>The workspace tools\<close>

lemma split_on_nonempty: "split_on sep s \<noteq> []"
  by (induction s) (auto split: list.splits)

lemma patch_file_paths_no_header:
  assumes "list_all (\<lambda>line. header_match line = None) (split_on (CHR 0x0A) text)"
  shows "patch_file_paths text = []"
proof -
  have "\<And>ls. list_all (\<lambda>line. header_match line = None) ls \<Longrightarrow>
      concat (map (\<lambda>line.
        if startsWith line ''--- '' \<or> startsWith line ''+++ '' then
          (case header_match line of
             Some p \<Rightarrow> if p \<noteq> ''/dev/null'' then [p] else []
           | None \<Rightarrow> [])
        else []) ls) = []"
    subgoal for ls by (induction ls) auto
    done
  from this [OF assms] show ?thesis by (simp add: patch_file_paths_def)
qed

text \<open>
  Claim C2, evaluated on the code. With the allow-list \<open>["src/**/*.ts"]\<close> the matcher of
  \<open>WorkspaceTools\<close> refuses \<open>src/a.ts\<close>: \<open>**/\<close> does not collapse, since every \<open>*\<close> becomes \<open>.*\<close>
  and the slash that follows stays. It allows \<open>src/sub/b.ts\<close> and refuses \<open>src/a.js\<close> and
  \<open>lib/a.ts\<close>. A \<open>*\<close> runs across slashes (\<open>src/*.ts\<close> allows \<open>src/x/y.ts\<close>), a dot of the
  pattern is not a literal (\<open>src/sub/bxts\<close> is allowed), and a pattern is a prefix of
  characters, not of directories (\<open>src\<close> allows \<open>src2/y.ts\<close>). The patch of the tool's own
  test for allowed paths is refused.
\<close>

theorem isPathAllowed_on_documented_patterns:
  "isPathAllowed js_RegExp [''src/**/*.ts''] ''src/a.ts'' = Inr False
   \<and> isPathAllowed js_RegExp [''src/**/*.ts''] ''src/sub/b.ts'' = Inr True
   \<and> isPathAllowed js_RegExp [''src/**/*.ts''] ''src/a.js'' = Inr False
   \<and> isPathAllowed js_RegExp [''src/**/*.ts''] ''lib/a.ts'' = Inr False
   \<and> isPathAllowed js_RegExp [''src/*.ts''] ''src/x/y.ts'' = Inr True
   \<and> isPathAllowed js_RegExp [''src/**/*.ts''] ''src/sub/bxts'' = Inr True
   \<and> isPathAllowed js_RegExp [''src''] ''src2/y.ts'' = Inr True
   \<and> validatePatch js_RegExp [''src/**/*.ts'', ''test/**/*.ts'']
        ''--- a/src/index.ts\<newline>+++ b/src/index.ts\<newline>@@ -1,0 +2,3 @@''
       = Inr \<lparr>valid = False, v_error = Some ''Patch touches disallowed path: src/index.ts''\<rparr>"
  by code_simp

text \<open>
  Claim C9, as the code has it. A text in which no line has the form of a file header
  touches no path, and \<open>validatePatch\<close> answers \<open>{valid: true}\<close> for it, whatever the
  allow-list and the regular expressions are.
\<close>

theorem validatePatch_without_header:
  assumes "list_all (\<lambda>line. header_match line = None) (split_on (CHR 0x0A) text)"
  shows "validatePatch re allowPaths text = Inr \<lparr>valid = True, v_error = None\<rparr>"
  using patch_file_paths_no_header [OF assms] by (simp add: validatePatch_def)

text \<open>The theorem of claim C9 at a text of two lines.\<close>

theorem validatePatch_without_header_witness:
  "list_all (\<lambda>line. header_match line = None) (split_on (CHR 0x0A) ''hello\<newline>world'')
   \<and> validatePatch js_RegExp [] ''hello\<newline>world'' = Inr \<lparr>valid = True, v_error = None\<rparr>"
proof -
  have h: "list_all (\<lambda>line. header_match line = None) (split_on (CHR 0x0A) ''hello\<newline>world'')"
    by (simp add: header_match_def)
  show ?thesis using h validatePatch_without_header [OF h, of js_RegExp "[]"] by simp
qed

text \<open>
  Claim C9 as the specification words it fails: the text \<open>this is not a diff\<close> has no header
  line, and the guard does not reject it.
\<close>

theorem validatePatch_accepts_non_diff:
  "map header_match (split_on (CHR 0x0A) ''this is not a diff'') = [None]
   \<and> validatePatch js_RegExp [''src/**/*.ts''] ''this is not a diff''
       = Inr \<lparr>valid = True, v_error = None\<rparr>"
  by (simp add: header_match_def validatePatch_def patch_file_paths_def startsWith_def)

text \<open>
  Claim C6, evaluated on the code. The text passes the validation, \<open>git apply\<close> exits with
  code 128, \<open>applyPatch\<close> answers \<open>{success: false, error}\<close>, and the temporary file is still
  on the disk with the text in it: the \<open>unlinkSync\<close> after \<open>execa\<close> is skipped by the
  exception.
\<close>

theorem applyPatch_leaves_temp_file:
  "(case applyPatch scripted ''/ws'' [''src/**/*.ts''] ''this is not a diff''
          \<lparr>disk = [], builder_answers = [], reviewer_answers = [], moderator_answers = [],
           process_results =
             [Inr \<lparr>stdout = [], stderr = ''error: No valid patches in input'',
                   exitCode = 128\<rparr>]\<rparr> of
      (result, w') \<Rightarrow>
        result = Inr \<lparr>success = False,
                      a_error = Some ''Failed to apply patch: error: No valid patches in input''\<rparr>
        \<and> map_of (disk w') ''/ws/.dualagent-temp.patch'' = Some ''this is not a diff'')"
  by code_simp

section \<open>The oscillation detector\<close>

lemma js_Set_aux:
  "distinct acc \<Longrightarrow>
   distinct (foldl (\<lambda>acc x. if x \<in> set acc then acc else acc @ [x]) acc xs)
   \<and> set (foldl (\<lambda>acc x. if x \<in> set acc then acc else acc @ [x]) acc xs) = set acc \<union> set xs"
  by (induction xs arbitrary: acc) auto

lemma distinct_js_Set: "distinct (js_Set xs)"
  and set_js_Set: "set (js_Set xs) = set xs"
  using js_Set_aux [of "[]" xs] by (simp_all add: js_Set_def)

lemma length_js_Set: "length (js_Set xs) = card (set xs)"
  using distinct_card [OF distinct_js_Set, of xs] by (simp add: set_js_Set)

text \<open>\<open>patchSimilarity\<close> computes the Jaccard similarity of the two sets of lines.\<close>

lemma patchSimilarity_jaccard: "patchSimilarity p1 p2 = jaccard (line_set p1) (line_set p2)"
proof (cases "p1 = p2")
  case True
  have "card (line_set p2) \<noteq> 0"
    using split_on_nonempty [of "CHR 0x0A" p2] by (simp add: line_set_def card_eq_0_iff)
  with True show ?thesis by (simp add: patchSimilarity_def jaccard_def)
next
  case False
  have "set (filter (\<lambda>x. x \<in> set (split_on (CHR 0x0A) p2)) (split_on (CHR 0x0A) p1))
        = line_set p1 \<inter> line_set p2"
    by (auto simp: line_set_def)
  with False show ?thesis
    by (simp add: patchSimilarity_def jaccard_def Let_def length_js_Set set_js_Set line_set_def)
qed

text \<open>
  Claim C5, as the code has it. A new patch is classified as stuck if and only if it is
  equal to a patch of the history, or the history has at least two patches and the Jaccard
  similarity of the line sets of its last patch and of the new one is strictly above 0.95.
\<close>

theorem detectOscillation_stuck_iff:
  "fst (detectOscillation p s) \<longleftrightarrow>
     p \<in> set (patchHistory s)
     \<or> (2 \<le> length (patchHistory s)
        \<and> jaccard (line_set (last (patchHistory s))) (line_set p) > 95 / 100)"
proof (cases "2 \<le> length (patchHistory s)")
  case True
  then have "patchHistory s \<noteq> []" by auto
  then have "patchHistory s ! (length (patchHistory s) - 1) = last (patchHistory s)"
    by (simp add: last_conv_nth)
  with True show ?thesis
    by (simp add: detectOscillation_def Let_def patchSimilarity_jaccard)
next
  case False
  then show ?thesis by (simp add: detectOscillation_def)
qed

text \<open>The theorem of claim C5 at a patch that repeats the only patch of the history.\<close>

theorem detectOscillation_stuck_iff_witness:
  "fst (detectOscillation ''a'' ((start_cycle ())\<lparr>patchHistory := [''a'']\<rparr>))"
  using detectOscillation_stuck_iff [of "''a''" "(start_cycle ())\<lparr>patchHistory := [''a'']\<rparr>"]
  by simp

text \<open>
  Claim C5 as the specification words it fails twice. With one patch in the history, a new
  patch with the same lines in another order has similarity 1 and is not classified as
  stuck. With two patches in the history, a new patch that adds one line to the nineteen of
  the last one has similarity exactly 0.95 and is not classified as stuck.
\<close>

theorem detectOscillation_differs_from_specification:
  "stuck_as_specified [''a\<newline>b''] ''b\<newline>a''
   \<and> \<not> fst (detectOscillation ''b\<newline>a'' ((start_cycle ())\<lparr>patchHistory := [''a\<newline>b'']\<rparr>))
   \<and> stuck_as_specified
        [''z'', ''a\<newline>b\<newline>c\<newline>d\<newline>e\<newline>f\<newline>g\<newline>h\<newline>i\<newline>j\<newline>k\<newline>l\<newline>m\<newline>n\<newline>o\<newline>p\<newline>q\<newline>r\<newline>s'']
        ''a\<newline>b\<newline>c\<newline>d\<newline>e\<newline>f\<newline>g\<newline>h\<newline>i\<newline>j\<newline>k\<newline>l\<newline>m\<newline>n\<newline>o\<newline>p\<newline>q\<newline>r\<newline>s\<newline>t''
   \<and> jaccard
        (line_set ''a\<newline>b\<newline>c\<newline>d\<newline>e\<newline>f\<newline>g\<newline>h\<newline>i\<newline>j\<newline>k\<newline>l\<newline>m\<newline>n\<newline>o\<newline>p\<newline>q\<newline>r\<newline>s'')
        (line_set ''a\<newline>b\<newline>c\<newline>d\<newline>e\<newline>f\<newline>g\<newline>h\<newline>i\<newline>j\<newline>k\<newline>l\<newline>m\<newline>n\<newline>o\<newline>p\<newline>q\<newline>r\<newline>s\<newline>t'')
       = 95 / 100
   \<and> \<not> fst (detectOscillation
              ''a\<newline>b\<newline>c\<newline>d\<newline>e\<newline>f\<newline>g\<newline>h\<newline>i\<newline>j\<newline>k\<newline>l\<newline>m\<newline>n\<newline>o\<newline>p\<newline>q\<newline>r\<newline>s\<newline>t''
              ((start_cycle ())\<lparr>patchHistory :=
                 [''z'', ''a\<newline>b\<newline>c\<newline>d\<newline>e\<newline>f\<newline>g\<newline>h\<newline>i\<newline>j\<newline>k\<newline>l\<newline>m\<newline>n\<newline>o\<newline>p\<newline>q\<newline>r\<newline>s'']\<rparr>))"
  unfolding stuck_as_specified_def patchSimilarity_jaccard [symmetric]
  by code_simp

section \<open>The response parser\<close>

















section \<open>The RUN state\<close>

lemma upto_first_failure_Cons:
  "upto_first_failure (r # rs) = (if exitCode (fst r) = 0 then r # upto_first_failure rs else [r])"
  by (simp add: upto_first_failure_def)

lemma upto_first_failure_Nil: "upto_first_failure [] = []"
  by (simp add: upto_first_failure_def)

lemma run_in_order_Cons:
  "run_in_order env (cmd # rest) w =
     (case runCommand env (hd (split_on (CHR '' '') cmd)) (tl (split_on (CHR '' '') cmd)) w of
        (r, w') \<Rightarrow> (r, w') # run_in_order env rest w')"
  by (auto simp: runCommand_def Let_def split: prod.splits sum.splits)

lemma run_list_in_order:
  "run_list env (cmd # rest) s =
     (let finished = upto_first_failure (run_in_order env (cmd # rest) (world s))
      in s\<lparr>world := snd (last finished),
            emitted := emitted s @ map (\<lambda>r. Tests_output (fst r)) finished,
            lastTestOutput := Some (fst (last finished))\<rparr>)"
proof (induction rest arbitrary: cmd s)
  case Nil
  show ?case
    by (auto simp: run_command_line_def emit_def Let_def upto_first_failure_Cons
                   upto_first_failure_Nil run_in_order_Cons
             simp del: run_in_order.simps(2) split: prod.splits)
next
  case (Cons c rest)
  obtain r w' where rc: "runCommand env (hd (split_on (CHR '' '') cmd)) (tl (split_on (CHR '' '') cmd)) (world s) = (r, w')"
    by (cases "runCommand env (hd (split_on (CHR '' '') cmd)) (tl (split_on (CHR '' '') cmd)) (world s)")
  have spec0: "run_in_order env (cmd # c # rest) (world s) = (r, w') # run_in_order env (c # rest) w'"
    using rc by (simp add: run_in_order_Cons del: run_in_order.simps(2))
  show ?case
  proof (cases "exitCode r = 0")
    case False
    with rc show ?thesis
      unfolding spec0
      by (simp add: run_command_line_def emit_def Let_def upto_first_failure_Cons
               del: run_in_order.simps(2))
  next
    case True
    let ?s2 = "(emit (Tests_output r) (s\<lparr>world := w'\<rparr>))\<lparr>lastTestOutput := Some r\<rparr>"
    have step: "run_list env (cmd # c # rest) s = run_list env (c # rest) ?s2"
      using rc True by (simp add: run_command_line_def Let_def)
    have w2: "world ?s2 = w'" by (simp add: emit_def)
    have ne: "upto_first_failure (run_in_order env (c # rest) w') \<noteq> []"
      by (auto simp: upto_first_failure_Cons run_in_order_Cons
               simp del: run_in_order.simps(2) split: prod.splits)
    have spec: "upto_first_failure (run_in_order env (cmd # c # rest) (world s))
                = (r, w') # upto_first_failure (run_in_order env (c # rest) w')"
      unfolding spec0 using True by (simp add: upto_first_failure_Cons)
    show ?thesis
      unfolding step Cons.IH [of c ?s2] spec w2
      using ne by (simp add: Let_def emit_def)
  qed
qed

lemma run_in_order_upto_nonempty: "upto_first_failure (run_in_order env (cmd # rest) w) \<noteq> []"
  by (auto simp: upto_first_failure_Cons run_in_order_Cons
           simp del: run_in_order.simps(2) split: prod.splits)

text \<open>
  Claim C8. The RUN state runs the command lines of the builder's \<open>run\<close> list, or the
  configured \<open>test_command\<close> alone when the list is empty or absent, one after the other in
  the order of the list and up to the first exit code other than 0; it emits one
  \<open>tests_output\<close> event for each command it ran; \<open>lastTestOutput\<close> is the result of the last
  command it ran; and the cycle goes on to the review exactly when that exit code is 0, to
  the failure branch otherwise.
\<close>

theorem run_tests_in_order:
  "(let finished = upto_first_failure
                     (run_in_order env (commands_to_run cfg builderMessage) (world s));
        s' = run_tests env cfg builderMessage s
    in finished \<noteq> []
       \<and> emitted s' = emitted s @ Status ''Running tests...''
                        # map (\<lambda>r. Tests_output (fst r)) finished
       \<and> world s' = snd (last finished)
       \<and> lastTestOutput s' = Some (fst (last finished))
       \<and> tests_phase env cfg workspaceRoot builderMessage s =
           (if exitCode (fst (last finished)) = 0 then review_phase env cfg workspaceRoot s'
            else
              let s3 = (emit (Status ''Tests failed - returning to Builder to fix'') s')
                         \<lparr>openIssues :=
                            [''[CRITICAL] Tests failing - Exit code ''
                             @ show_int (exitCode (fst (last finished))),
                             ''Stdout: '' @ stdout (fst (last finished)),
                             ''Stderr: '' @ stderr (fst (last finished))]\<rparr>
              in if of_int (iteration s) \<ge> max_iterations cfg then
                   Return (cycle_complete False ''Max iterations reached with failing tests.'' s3)
                 else Continue s3))"
proof -
  obtain cmd rest where cs: "commands_to_run cfg builderMessage = cmd # rest"
    by (cases "commands_to_run cfg builderMessage")
       (auto simp: commands_to_run_def split: option.splits list.splits)
  let ?s2 = "(emit (Status ''Running tests...'') s)
               \<lparr>lastTestOutput := Some \<lparr>stdout = [], stderr = [], exitCode = 0\<rparr>\<rparr>"
  have rt: "run_tests env cfg builderMessage s = run_list env (cmd # rest) ?s2"
  proof (cases "run builderMessage")
    case None
    with cs show ?thesis
      by (auto simp: run_tests_def commands_to_run_def Let_def split: prod.splits)
  next
    case (Some l)
    with cs show ?thesis
      by (cases l) (auto simp: run_tests_def commands_to_run_def Let_def split: prod.splits)
  qed
  have w2: "world ?s2 = world s" by (simp add: emit_def)
  show ?thesis
    unfolding cs tests_phase_def rt run_list_in_order w2
    using run_in_order_upto_nonempty [of env cmd rest "world s"]
    by (simp add: Let_def emit_def del: run_in_order.simps(2))
qed

text \<open>The theorem of claim C8 on a list of three commands, the second of which fails.\<close>

theorem run_tests_in_order_witness:
  "lastTestOutput
     (run_tests scripted (example_config 3 Always)
        \<lparr>files_needed = None, plan = None, patch = Some ''p'', tests = None,
         run = Some [''npm test'', ''npm run lint'', ''npm run build''], risks = None\<rparr>
        (start_cycle (script_of [] [] [exits 0, exits 2, exits 0])))
   = Some \<lparr>stdout = [], stderr = [], exitCode = 2\<rparr>"
proof -
  have e: "upto_first_failure
             (run_in_order scripted
                (commands_to_run (example_config 3 Always)
                   \<lparr>files_needed = None, plan = None, patch = Some ''p'', tests = None,
                    run = Some [''npm test'', ''npm run lint'', ''npm run build''],
                    risks = None\<rparr>)
                (world (start_cycle (script_of [] [] [exits 0, exits 2, exits 0]))))
           = [(\<lparr>stdout = [], stderr = [], exitCode = 0\<rparr>, script_of [] [] [exits 2, exits 0]),
              (\<lparr>stdout = [], stderr = [], exitCode = 2\<rparr>, script_of [] [] [exits 0])]"
    by code_simp
  show ?thesis
    using run_tests_in_order [where env = scripted and cfg = "example_config 3 Always"
        and builderMessage = "\<lparr>files_needed = None, plan = None, patch = Some ''p'',
               tests = None, run = Some [''npm test'', ''npm run lint'', ''npm run build''],
               risks = None\<rparr>"
        and s = "start_cycle (script_of [] [] [exits 0, exits 2, exits 0])"
        and workspaceRoot = "''/ws''"]
    unfolding e Let_def by simp
qed

section \<open>The cycle\<close>

subsection \<open>What each part of a turn does to the state\<close>

lemma no_terminal_Nil [simp]: "no_terminal []"
  by (simp add: no_terminal_def)

lemma no_terminal_Cons [simp]: "no_terminal (e # es) \<longleftrightarrow> \<not> terminal e \<and> no_terminal es"
  by (simp add: no_terminal_def)

lemma no_terminal_append [simp]: "no_terminal (xs @ ys) \<longleftrightarrow> no_terminal xs \<and> no_terminal ys"
  by (simp add: no_terminal_def)

lemma quiet_events_Nil [simp]: "quiet_events []"
  by (simp add: quiet_events_def)

lemma quiet_events_Cons [simp]:
  "quiet_events (e # es) \<longleftrightarrow> \<not> is_cycle_complete e \<and> quiet_events es"
  by (simp add: quiet_events_def)

lemma quiet_events_append [simp]:
  "quiet_events (xs @ ys) \<longleftrightarrow> quiet_events xs \<and> quiet_events ys"
  by (simp add: quiet_events_def)

lemma cycle_complete_terminal: "is_cycle_complete e \<Longrightarrow> terminal e"
  by (cases e) auto

lemma success_cycle_complete: "is_success e \<Longrightarrow> is_cycle_complete e"
  by (cases e) auto

lemma no_terminal_quiet: "no_terminal es \<Longrightarrow> quiet_events es"
  by (auto simp: no_terminal_def quiet_events_def list_all_iff dest: cycle_complete_terminal)

lemma ends_well_error: "quiet_events es \<Longrightarrow> ends_well (es @ [Error_event m])"
  by (simp add: ends_well_def)

lemma ends_well_failure: "quiet_events es \<Longrightarrow> ends_well (es @ [Cycle_complete False m n])"
  by (simp add: ends_well_def)

lemma ends_well_success: "no_terminal es \<Longrightarrow> ends_well (es @ [Cycle_complete True m n])"
  by (simp add: ends_well_def no_terminal_quiet)

lemma ends_well_left: "no_terminal es1 \<Longrightarrow> ends_well es2 \<Longrightarrow> ends_well (es1 @ es2)"
  by (auto simp: ends_well_def butlast_append no_terminal_quiet)

lemma ends_well_Cons: "\<not> terminal e \<Longrightarrow> ends_well es \<Longrightarrow> ends_well (e # es)"
  using ends_well_left [of "[e]" es] by simp

lemma extends_refl [simp]: "extends errs s s"
  by (simp add: extends_def)

lemma extends_weaken: "extends False s s' \<Longrightarrow> extends errs s s'"
  by (auto simp: extends_def no_terminal_quiet)

lemma extends_trans: "extends False a b \<Longrightarrow> extends errs b c \<Longrightarrow> extends errs a c"
  by (cases errs) (auto simp: extends_def no_terminal_quiet)

lemma extends_emit: "\<not> terminal e \<Longrightarrow> extends errs s t \<Longrightarrow> extends errs s (emit e t)"
  by (cases errs) (auto simp: extends_def emit_def dest: cycle_complete_terminal)

lemma extends_emit_error: "extends errs s t \<Longrightarrow> extends True s (emit (Error_event m) t)"
  by (cases errs) (auto simp: extends_def emit_def no_terminal_quiet)

lemma extends_world [simp]: "extends errs s (t\<lparr>world := w\<rparr>) = extends errs s t"
  and extends_openIssues [simp]: "extends errs s (t\<lparr>openIssues := oi\<rparr>) = extends errs s t"
  and extends_lastTestOutput [simp]:
    "extends errs s (t\<lparr>lastTestOutput := lo\<rparr>) = extends errs s t"
  and extends_lastPatch [simp]: "extends errs s (t\<lparr>lastPatch := lp\<rparr>) = extends errs s t"
  and extends_reviewHistory [simp]:
    "extends errs s (t\<lparr>reviewHistory := rh\<rparr>) = extends errs s t"
  and extends_builderMessages [simp]:
    "extends errs s (t\<lparr>builderMessages := bm\<rparr>) = extends errs s t"
  by (simp_all add: extends_def)

lemma extends_advances: "extends False s s' \<Longrightarrow> advances cfg False rv ph s s'"
  by (auto simp: extends_def advances_def)

lemma advances_left:
  "extends False s s1 \<Longrightarrow> advances cfg final rv ph s1 s2 \<Longrightarrow> advances cfg final rv ph s s2"
  by (cases final) (auto simp: extends_def advances_def ends_well_left)

lemma advances_error:
  "extends errs s s1 \<Longrightarrow> advances cfg True rv ph s (emit (Error_event m) s1)"
  by (cases errs) (auto simp: extends_def advances_def emit_def ends_well_error no_terminal_quiet)

lemma advances_failure:
  "extends errs s s1 \<Longrightarrow> advances cfg True rv ph s (cycle_complete False msg s1)"
  by (cases errs)
     (auto simp: extends_def advances_def emit_def cycle_complete_def ends_well_failure
                 no_terminal_quiet)

lemma advances_success:
  "extends False s s1 \<Longrightarrow> advances cfg True rv ph s (cycle_complete True msg s1)"
  by (auto simp: extends_def advances_def emit_def cycle_complete_def ends_well_success)

lemma flow_ok_left: "extends False s s1 \<Longrightarrow> flow_ok cfg rv ph s1 f \<Longrightarrow> flow_ok cfg rv ph s f"
  by (cases f) (auto intro: advances_left)

lemma advances_weaken:
  "advances cfg final False False s s' \<Longrightarrow> advances cfg final rv ph s s'"
  "advances cfg final True False s s' \<Longrightarrow> advances cfg final True ph s s'"
  by (auto simp: advances_def)

lemma flow_ok_weaken:
  "flow_ok cfg False False s f \<Longrightarrow> flow_ok cfg rv ph s f"
  "flow_ok cfg True False s f \<Longrightarrow> flow_ok cfg True ph s f"
  by (cases f; auto intro: advances_weaken)+

lemma complete_extends: "complete provider r s = (a, s') \<Longrightarrow> extends False s s'"
  by (auto simp: complete_def extends_def no_terminal_def list_all_iff split: prod.splits)

lemma parseJSON_extends:
  "parseJSON env schema response s = (r, s') \<Longrightarrow> extends (r = None) s s'"
  by (auto simp: parseJSON_def extends_emit_error split: sum.splits option.splits)

lemma detectOscillation_extends:
  "detectOscillation p s = (b, s') \<Longrightarrow>
     extends False s s' \<and> (\<not> b \<longrightarrow> p \<notin> set (patchHistory s))"
  by (auto simp: detectOscillation_def Let_def extends_emit split: if_splits)

lemma run_command_line_extends: "run_command_line env cmd s = (r, s') \<Longrightarrow> extends False s s'"
  by (auto simp: run_command_line_def Let_def extends_emit split: prod.splits)

lemma diagnostics_loop_extends: "diagnostics_loop env cmds s = (rs, s') \<Longrightarrow> extends False s s'"
proof (induction cmds arbitrary: s rs s')
  case Nil
  then show ?case by simp
next
  case (Cons cmd rest)
  then show ?case
    by (auto split: prod.splits dest!: run_command_line_extends intro: extends_trans)
qed

lemma runDiagnostics_extends: "runDiagnostics env cmds s = (out, s') \<Longrightarrow> extends False s s'"
proof -
  assume a: "runDiagnostics env cmds s = (out, s')"
  obtain rs s1 where d: "diagnostics_loop env cmds (emit (Diagnostic_run cmds) s) = (rs, s1)"
    by (cases "diagnostics_loop env cmds (emit (Diagnostic_run cmds) s)")
  have "extends False s (emit (Diagnostic_run cmds) s)" by (simp add: extends_emit)
  from extends_trans [OF this diagnostics_loop_extends [OF d]] a d show ?thesis
    by (simp add: runDiagnostics_def)
qed

lemma run_list_extends: "extends False s (run_list env cmds s)"
proof (induction cmds arbitrary: s)
  case Nil
  show ?case by simp
next
  case (Cons cmd rest)
  obtain r s1 where c: "run_command_line env cmd s = (r, s1)"
    by (cases "run_command_line env cmd s")
  have e1: "extends False s (s1\<lparr>lastTestOutput := Some r\<rparr>)"
    using run_command_line_extends [OF c] by simp
  show ?case
    using c e1 extends_trans [OF e1 Cons.IH [of "s1\<lparr>lastTestOutput := Some r\<rparr>"]]
    by (simp add: Let_def)
qed

lemma run_tests_extends: "extends False s (run_tests env cfg bm s)"
proof -
  let ?s2 = "(emit (Status ''Running tests...'') s)
               \<lparr>lastTestOutput := Some \<lparr>stdout = [], stderr = [], exitCode = 0\<rparr>\<rparr>"
  have e2: "extends False s ?s2" by (simp add: extends_emit)
  have l: "\<And>cmds. extends False s (run_list env cmds ?s2)"
    by (rule extends_trans [OF e2 run_list_extends])
  have t: "extends False s (case run_command_line env (test_command cfg) ?s2 of
                        (result, s3) \<Rightarrow> s3\<lparr>lastTestOutput := Some result\<rparr>)"
    by (auto split: prod.splits dest!: run_command_line_extends intro: extends_trans [OF e2])
  show ?thesis
    using l t by (auto simp: run_tests_def Let_def simp del: run_list.simps
                       split: option.splits list.splits)
qed

lemma arbiter_run_extends: "arbiter_run env p bm s = (r, s') \<Longrightarrow> extends False s s'"
  by (auto simp: arbiter_run_def Let_def split: option.splits list.splits prod.splits
           dest!: run_command_line_extends intro: extends_emit)

lemma callModerator_extends: "callModerator env cfg s = (d, s') \<Longrightarrow> extends (d = None) s s'"
proof -
  assume a: "callModerator env cfg s = (d, s')"
  let ?s1 = "emit (Status ''Moderator: analyzing disagreement...'') s"
  have e1: "extends False s ?s1" by (simp add: extends_emit)
  show ?thesis
  proof (cases "moderatorProvider_set cfg")
    case False
    with a show ?thesis by (auto simp: callModerator_def extends_emit_error)
  next
    case True
    obtain a2 s2 where c: "complete (moderator_complete env) Moderator ?s1 = (a2, s2)"
      by (cases "complete (moderator_complete env) Moderator ?s1")
    have e2: "extends False s s2" by (rule extends_trans [OF e1 complete_extends [OF c]])
    show ?thesis
    proof (cases a2)
      case (Inl err)
      with a True c e2 show ?thesis
        by (auto simp: callModerator_def Let_def extends_emit_error)
    next
      case (Inr response)
      obtain r s3 where pj: "parseJSON env ModeratorDecisionSchema response s2 = (r, s3)"
        by (cases "parseJSON env ModeratorDecisionSchema response s2")
      have e3: "extends (r = None) s s3" by (rule extends_trans [OF e2 parseJSON_extends [OF pj]])
      with a True c Inr pj show ?thesis
        by (cases r) (auto simp: callModerator_def Let_def extends_emit)
    qed
  qed
qed

lemma shouldRunReviewer_extends:
  "shouldRunReviewer cfg i t s = (b, s') \<Longrightarrow>
     extends False s s' \<and> (b \<longrightarrow> review_mode cfg = Final_only \<longrightarrow> max_iterations cfg \<le> of_int i)"
  by (cases "review_mode cfg") (auto simp: shouldRunReviewer_def extends_emit split: if_splits)

lemma runArbiterMode_extends:
  assumes a: "runArbiterMode env cfg dir stuckIssue s = (r, s')"
  shows "extends (r = Inr Failed) s s'"
proof -
  let ?s2 = "emit (Status (''Arbiter mode: Issue '' @ [CHR 0x22] @ or_undefined (issue_id stuckIssue)
                             @ [CHR 0x22] @ '' persists. Forcing test demonstration...''))
               (emit (Arbiter_mode stuckIssue) s)"
  have e2: "extends False s ?s2" by (simp add: extends_emit)
  obtain a3 s3 where c: "complete (builder_complete env) Builder ?s2 = (a3, s3)"
    by (cases "complete (builder_complete env) Builder ?s2")
  have e3: "extends False s s3" by (rule extends_trans [OF e2 complete_extends [OF c]])
  show ?thesis
  proof (cases a3)
    case (Inl err)
    with a c e3 show ?thesis by (auto simp: runArbiterMode_def Let_def)
  next
    case (Inr response)
    obtain r4 s4 where pj: "parseJSON env BuilderMessageSchema response s3 = (r4, s4)"
      by (cases "parseJSON env BuilderMessageSchema response s3")
    have e4: "extends (r4 = None) s s4" by (rule extends_trans [OF e3 parseJSON_extends [OF pj]])
    show ?thesis
    proof (cases r4)
      case None
      with a c Inr pj e4 show ?thesis
        by (auto simp: runArbiterMode_def Let_def extends_emit_error)
    next
      case (Some bm)
      with e4 have e4': "extends False s s4" by simp
      have e4e: "\<And>m. extends True s (emit (Error_event m) s4)"
        by (rule extends_emit_error [OF e4'])
      have e4w: "\<And>m w. extends True s (emit (Error_event m) (s4\<lparr>world := w\<rparr>))"
        by (rule extends_emit_error [where errs = False]) (simp add: e4')
      have e4x: "\<And>w. extends False s (s4\<lparr>world := w\<rparr>)" by (simp add: e4')
      have e5: "\<And>p w x s5. arbiter_run env p bm (s4\<lparr>world := w\<rparr>) = (x, s5) \<Longrightarrow>
                  extends (x = Failed) s s5"
        by (rule extends_weaken [OF extends_trans [OF e4x arbiter_run_extends]])
      from a c Inr pj Some e4' e4e e4w e4x e5 show ?thesis
        by (auto simp: runArbiterMode_def Let_def
                 split: option.splits sum.splits if_splits prod.splits)
    qed
  qed
qed

lemma max_iterations_check_ok: "flow_ok cfg False False s (max_iterations_check env cfg rv s)"
proof (cases "of_int (iteration s) \<ge> max_iterations cfg")
  case False
  then show ?thesis by (simp add: max_iterations_check_def extends_advances)
next
  case True
  let ?s1 = "emit (Status ''Max iterations reached - consulting moderator'') s"
  obtain d s2 where m: "callModerator env cfg ?s1 = (d, s2)"
    by (cases "callModerator env cfg ?s1")
  have e2: "extends (d = None) s s2"
    by (rule extends_trans [OF _ callModerator_extends [OF m]]) (simp add: extends_emit)
  have e0: "extends False s s" by simp
  from True m e2 show ?thesis
    by (auto simp: max_iterations_check_def Let_def advances_success advances_failure
                   advances_failure [OF e0]
             split: option.splits)
qed

lemma request_changes_ok: "flow_ok cfg False False s (request_changes env cfg dir rv s)"
proof (cases "findStuckIssues (reviewHistory s)")
  case Nil
  have "extends False s ((emit (Status ''Reviewer requests changes - returning to Builder'') s)
                     \<lparr>openIssues := issues_with_suggestion rv\<rparr>)"
    by (simp add: extends_emit)
  from flow_ok_left [OF this max_iterations_check_ok] Nil show ?thesis
    by (simp add: request_changes_def)
next
  case (Cons stuckIssue rest)
  obtain r s1 where ar: "runArbiterMode env cfg dir stuckIssue s = (r, s1)"
    by (cases "runArbiterMode env cfg dir stuckIssue s")
  have e1: "extends (r = Inr Failed) s s1" by (rule runArbiterMode_extends [OF ar])
  have k: "\<And>m oi. r \<noteq> Inr Failed \<Longrightarrow> flow_ok cfg False False s
              (max_iterations_check env cfg rv ((emit (Status m) s1)\<lparr>openIssues := oi\<rparr>))"
    by (rule flow_ok_left [OF _ max_iterations_check_ok]) (use e1 in \<open>simp add: extends_emit\<close>)
  show ?thesis
  proof (cases r)
    case (Inl err)
    with Cons ar e1 show ?thesis by (simp add: request_changes_def extends_advances)
  next
    case (Inr x)
    with Cons ar e1 k show ?thesis
      by (cases x) (simp_all add: request_changes_def advances_failure)
  qed
qed

lemma interpret_review_ok: "flow_ok cfg False False s (interpret_review env cfg dir rv s)"
proof -
  have approve: "advances cfg True False False s
                   (cycle_complete True (''Implementation approved! '' @ stopping rv) s)"
    by (simp add: advances_success)
  have human: "advances cfg True False False s
                 (cycle_complete False (''Reviewer blocked (needs human): '' @ stopping rv) s)"
    by (rule advances_failure [where errs = False]) simp
  have bug: "flow_ok cfg False False s
               (let s1 = emit (Status ''Reviewer found definite bugs - returning to Builder'') s;
                    s2 = s1\<lparr>openIssues := issues_with_suggestion rv\<rparr>
                in if of_int (iteration s2) \<ge> max_iterations cfg then
                     Return (cycle_complete False (''Max iterations reached. '' @ stopping rv) s2)
                   else Continue s2)"
    by (simp add: Let_def advances_failure [where errs = False] extends_advances extends_emit)
  have unc: "flow_ok cfg False False s
               (case runDiagnostics env (case diagnostics_needed rv of Some cs \<Rightarrow> cs | None \<Rightarrow> [])
                       (emit (Status ''Reviewer uncertain - running diagnostics...'') s) of
                  (diagnosticsOutput, s1) \<Rightarrow>
                    let s2 = s1\<lparr>openIssues := openIssues s1 @ [''DIAGNOSTICS RUN:\<newline>'' @ diagnosticsOutput]\<rparr>;
                        s3 = emit (Status ''Diagnostics complete - re-running reviewer with results'') s2
                    in Continue (s3\<lparr>iteration := iteration s3 - 1\<rparr>))"
  proof -
    obtain out s1 where d: "runDiagnostics env (case diagnostics_needed rv of Some cs \<Rightarrow> cs | None \<Rightarrow> [])
                       (emit (Status ''Reviewer uncertain - running diagnostics...'') s) = (out, s1)"
      by (cases "runDiagnostics env (case diagnostics_needed rv of Some cs \<Rightarrow> cs | None \<Rightarrow> [])
                       (emit (Status ''Reviewer uncertain - running diagnostics...'') s)")
    have "extends False s s1"
      by (rule extends_trans [OF _ runDiagnostics_extends [OF d]]) (simp add: extends_emit)
    then show ?thesis
      unfolding d by (auto simp: Let_def extends_def advances_def emit_def)
  qed
  show ?thesis
    unfolding interpret_review_def
    using approve human bug unc request_changes_ok [of cfg s env dir rv]
    by (simp add: extends_advances)
qed

lemma handle_review_response_ok:
  "flow_ok cfg False False s (handle_review_response env cfg dir response s)"
proof -
  obtain r s1 where pj: "parseJSON env ReviewSchema response s = (r, s1)"
    by (cases "parseJSON env ReviewSchema response s")
  have e1: "extends (r = None) s s1" by (rule parseJSON_extends [OF pj])
  show ?thesis
  proof (cases r)
    case None
    with pj e1 show ?thesis
      by (simp add: handle_review_response_def advances_error)
  next
    case (Some rv)
    with e1 have "extends False s (emit (Review_ready rv) (s1\<lparr>reviewHistory := reviewHistory s1 @ [rv]\<rparr>))"
      by (simp add: extends_emit)
    from flow_ok_left [OF this interpret_review_ok] pj Some show ?thesis
      by (simp add: handle_review_response_def)
  qed
qed

lemma reviewer_called:
  assumes "extends False s s1"
    and "review_mode cfg = Final_only \<longrightarrow> max_iterations cfg \<le> of_int (iteration s)"
    and "extends False ((emit e s1)\<lparr>reviewer_calls := reviewer_calls s1 @ [iteration s1]\<rparr>) s4"
    and "\<not> terminal e"
  shows "advances cfg False True False s s4"
    and "flow_ok cfg False False s4 f \<Longrightarrow> flow_ok cfg True False s f"
proof -
  show a: "advances cfg False True False s s4"
    using assms by (auto simp: extends_def advances_def emit_def)
  assume f: "flow_ok cfg False False s4 f"
  show "flow_ok cfg True False s f"
  proof (cases f)
    case (Continue s')
    with f assms show ?thesis by (auto simp: extends_def advances_def emit_def)
  next
    case (Threw err s')
    with f assms show ?thesis by (auto simp: extends_def advances_def emit_def)
  next
    case (Return s')
    with f assms show ?thesis
      by (auto simp: extends_def advances_def emit_def intro!: ends_well_Cons ends_well_left)
  qed
qed

subsection \<open>The turn and the loop\<close>

lemma review_phase_ok: "flow_ok cfg True False s (review_phase env cfg dir s)"
proof -
  obtain b s1 where sr: "shouldRunReviewer cfg (iteration s) True s = (b, s1)"
    by (cases "shouldRunReviewer cfg (iteration s) True s")
  from shouldRunReviewer_extends [OF sr]
  have e1: "extends False s s1"
    and fo: "b \<Longrightarrow> review_mode cfg = Final_only \<longrightarrow> max_iterations cfg \<le> of_int (iteration s)"
    by auto
  show ?thesis
  proof (cases b)
    case False
    from flow_ok_left [OF e1 interpret_review_ok] sr False show ?thesis
      by (simp add: review_phase_def flow_ok_weaken)
  next
    case True
    let ?s2 = "emit (Status ''Reviewer: analyzing implementation...'') s1"
    let ?s3 = "?s2\<lparr>reviewer_calls := reviewer_calls ?s2 @ [iteration ?s2]\<rparr>"
    have s3: "?s3 = (emit (Status ''Reviewer: analyzing implementation...'') s1)
                      \<lparr>reviewer_calls := reviewer_calls s1 @ [iteration s1]\<rparr>"
      by (simp add: emit_def)
    obtain a4 s4 where c: "complete (reviewer_complete env) Reviewer ?s3 = (a4, s4)"
      by (cases "complete (reviewer_complete env) Reviewer ?s3")
    have e4: "extends False ((emit (Status ''Reviewer: analyzing implementation...'') s1)
                      \<lparr>reviewer_calls := reviewer_calls s1 @ [iteration s1]\<rparr>) s4"
      using complete_extends [OF c] unfolding s3 .
    note rc = reviewer_called [OF e1 fo [OF True] e4]
    show ?thesis
    proof (cases a4)
      case (Inl err)
      with sr True c rc(1) show ?thesis by (simp add: review_phase_def Let_def)
    next
      case (Inr response)
      from rc(2) [OF _ handle_review_response_ok] sr True c Inr show ?thesis
        by (simp add: review_phase_def Let_def)
    qed
  qed
qed

lemma tests_phase_ok: "flow_ok cfg True False s (tests_phase env cfg dir bm s)"
proof -
  let ?s1 = "run_tests env cfg bm s"
  have e1: "extends False s ?s1" by (rule run_tests_extends)
  have r: "flow_ok cfg True False s (review_phase env cfg dir ?s1)"
    by (rule flow_ok_left [OF e1 review_phase_ok])
  have e3: "\<And>m oi. extends False s ((emit (Status m) ?s1)\<lparr>openIssues := oi\<rparr>)"
    by (simp add: extends_emit e1)
  have f: "\<And>m oi msg. advances cfg True True False s
              (cycle_complete False msg ((emit (Status m) ?s1)\<lparr>openIssues := oi\<rparr>))"
    by (rule advances_failure [OF e3])
  show ?thesis
    unfolding tests_phase_def Let_def
    using r e3 f by (simp add: extends_advances)
qed

lemma patched:
  assumes "extends False s s1" and "p \<notin> set (patchHistory s)"
    and "extends errs (s1\<lparr>patchHistory := patchHistory s1 @ [p]\<rparr>) s4"
  shows "\<not> errs \<Longrightarrow> advances cfg False True True s s4"
    and "advances cfg True True True s (emit (Error_event m) s4)"
    and "\<not> errs \<Longrightarrow> flow_ok cfg True False s4 f \<Longrightarrow> flow_ok cfg True True s f"
proof -
  show "\<not> errs \<Longrightarrow> advances cfg False True True s s4"
    using assms by (auto simp: extends_def advances_def)
  show "advances cfg True True True s (emit (Error_event m) s4)"
    using assms
    by (cases errs)
       (auto simp: extends_def advances_def emit_def no_terminal_quiet
             intro!: ends_well_error [of "_ @ _", simplified])
  assume ne: "\<not> errs" and f: "flow_ok cfg True False s4 f"
  show "flow_ok cfg True True s f"
  proof (cases f)
    case (Continue s')
    with f ne assms show ?thesis by (auto simp: extends_def advances_def)
  next
    case (Threw err s')
    with f ne assms show ?thesis by (auto simp: extends_def advances_def)
  next
    case (Return s')
    with f ne assms show ?thesis
      by (auto simp: extends_def advances_def intro!: ends_well_left)
  qed
qed

lemma patch_phase_ok: "flow_ok cfg True True s (patch_phase env cfg dir bm p s)"
proof -
  let ?s0 = "emit (Patch_ready p) (s\<lparr>lastPatch := p\<rparr>)"
  have e0: "extends False s ?s0" by (simp add: extends_emit)
  obtain b s1 where d: "detectOscillation p ?s0 = (b, s1)"
    by (cases "detectOscillation p ?s0")
  from detectOscillation_extends [OF d]
  have e1: "extends False s s1" and fresh: "\<not> b \<Longrightarrow> p \<notin> set (patchHistory s)"
    using extends_trans [OF e0] by (auto simp: emit_def)
  show ?thesis
  proof (cases b)
    case True
    obtain m s2 where cm: "callModerator env cfg s1 = (m, s2)"
      by (cases "callModerator env cfg s1")
    have e2: "extends (m = None) s s2" by (rule extends_trans [OF e1 callModerator_extends [OF cm]])
    have f1: "\<And>msg. advances cfg True True True s (cycle_complete False msg s1)"
      by (rule advances_failure [OF e1])
    have f2: "\<And>msg. advances cfg True True True s (cycle_complete False msg s2)"
      by (rule advances_failure [OF e2])
    from True d cm e2 f1 f2 show ?thesis
      by (auto simp: patch_phase_def oscillation_failure_def advances_success
               split: option.splits)
  next
    case False
    let ?s3 = "emit (Status ''Validating patch...'') (s1\<lparr>patchHistory := patchHistory s1 @ [p]\<rparr>)"
    let ?s4 = "emit (Status ''Applying patch...'') ?s3"
    have x3: "extends False (s1\<lparr>patchHistory := patchHistory s1 @ [p]\<rparr>) ?s3"
      by (simp add: extends_emit)
    have x4: "\<And>w. extends False (s1\<lparr>patchHistory := patchHistory s1 @ [p]\<rparr>) (?s4\<lparr>world := w\<rparr>)"
      by (simp add: extends_emit)
    note P = patched [OF e1 fresh [OF False]]
    have t: "\<And>w. flow_ok cfg True True s (tests_phase env cfg dir bm (?s4\<lparr>world := w\<rparr>))"
      by (rule P(3) [OF x4 _ tests_phase_ok]) simp
    obtain ar w' where ap: "applyPatch env dir (allow_paths cfg) p (world ?s4) = (ar, w')"
      by (cases "applyPatch env dir (allow_paths cfg) p (world ?s4)")
    from False d ap t P(1) [OF x3] P(2) [OF x3] P(1) [OF x4] P(2) [OF x4] show ?thesis
      by (auto simp: patch_phase_def Let_def split: sum.splits)
  qed
qed

lemma loop_body_ok:
  "flow_ok cfg True True (s0\<lparr>iteration := iteration s0 + 1\<rparr>) (loop_body env cfg dir s0)"
proof -
  let ?s1 = "s0\<lparr>iteration := iteration s0 + 1\<rparr>"
  let ?s3 = "emit (Status ''Builder: analyzing request...'')
               (emit (Status (''Iteration '' @ show_int (iteration ?s1) @ ''/''
                             @ show_number env (max_iterations cfg))) ?s1)"
  have e3: "extends False ?s1 ?s3" by (simp add: extends_emit)
  obtain a4 s4 where c: "complete (builder_complete env) Builder ?s3 = (a4, s4)"
    by (cases "complete (builder_complete env) Builder ?s3")
  have e4: "extends False ?s1 s4" by (rule extends_trans [OF e3 complete_extends [OF c]])
  show ?thesis
  proof (cases a4)
    case (Inl err)
    with c e4 show ?thesis by (simp add: loop_body_def Let_def extends_advances)
  next
    case (Inr response)
    obtain r s5 where pj: "parseJSON env BuilderMessageSchema response s4 = (r, s5)"
      by (cases "parseJSON env BuilderMessageSchema response s4")
    have e5: "extends (r = None) ?s1 s5" by (rule extends_trans [OF e4 parseJSON_extends [OF pj]])
    show ?thesis
    proof (cases r)
      case None
      with c Inr pj e5 show ?thesis
        by (simp add: loop_body_def Let_def advances_error)
    next
      case (Some bm)
      with e5 have e5': "extends False ?s1 s5" by simp
      let ?s6 = "s5\<lparr>builderMessages := builderMessages s5 @ [bm]\<rparr>"
      have e6: "extends False ?s1 ?s6" by (simp add: e5')
      have e6e: "\<And>m. advances cfg True True True ?s1 (emit (Error_event m) ?s6)"
        by (rule advances_error [OF e6])
      have e7: "\<And>m oi. extends False ?s1 ((emit (Status m) ?s6)\<lparr>openIssues := oi\<rparr>)"
        by (simp add: extends_emit e5')
      have pp: "\<And>p. flow_ok cfg True True ?s1 (patch_phase env cfg dir bm p ?s6)"
        by (rule flow_ok_left [OF e6 patch_phase_ok])
      from c Inr pj Some e6e e7 pp show ?thesis
        by (auto simp: loop_body_def Let_def extends_advances
                 split: option.splits list.splits)
    qed
  qed
qed

lemma cycle_inv_advances:
  assumes i: "cycle_inv cfg False s0" and lt: "of_int (iteration s0) < max_iterations cfg"
    and a: "advances cfg final True True (s0\<lparr>iteration := iteration s0 + 1\<rparr>) s'"
  shows "cycle_inv cfg final s'"
proof -
  from a obtain es where es: "emitted s' = emitted s0 @ es"
      and q: "if final then ends_well es else no_terminal es"
    by (auto simp: advances_def)
  have 1: "if final then ends_well (emitted s') else no_terminal (emitted s')"
    using i q es by (cases final) (auto simp: cycle_inv_def ends_well_left)
  have 2: "distinct (patchHistory s')"
    using i a by (auto simp: cycle_inv_def advances_def)
  have 3: "review_mode cfg = Final_only \<longrightarrow>
             list_all (\<lambda>i. max_iterations cfg \<le> of_int i \<and> of_int i < max_iterations cfg + 1)
               (reviewer_calls s')"
    using i a lt by (auto simp: cycle_inv_def advances_def)
  from 1 2 3 show ?thesis by (simp add: cycle_inv_def)
qed

lemma cycle_loop_inv:
  "cycle_inv cfg False s \<Longrightarrow>
     (case cycle_loop n env cfg dir s of
        Returned s' \<Rightarrow> cycle_inv cfg True s'
      | Loop_ended s' \<Rightarrow> cycle_inv cfg False s'
      | Thrown err s' \<Rightarrow> cycle_inv cfg False s'
      | Running s' \<Rightarrow> cycle_inv cfg False s')"
proof (induction n arbitrary: s)
  case 0
  then show ?case by simp
next
  case (Suc n)
  show ?case
  proof (cases "of_int (iteration s) < max_iterations cfg")
    case False
    with Suc.prems show ?thesis by simp
  next
    case True
    note ok = loop_body_ok [of cfg s env dir]
    show ?thesis
    proof (cases "loop_body env cfg dir s")
      case (Continue s')
      with ok have "cycle_inv cfg False s'"
        using cycle_inv_advances [OF Suc.prems True] by simp
      from Suc.IH [OF this] True Continue show ?thesis by simp
    next
      case (Return s')
      with ok have "cycle_inv cfg True s'"
        using cycle_inv_advances [OF Suc.prems True] by simp
      with True Return show ?thesis by simp
    next
      case (Threw err s')
      with ok have "cycle_inv cfg False s'"
        using cycle_inv_advances [OF Suc.prems True] by simp
      with True Threw show ?thesis by simp
    qed
  qed
qed

lemma runCycle_inv:
  "(case runCycle n env cfg dir w of
      Returned s' \<Rightarrow> cycle_inv cfg True s'
    | Loop_ended s' \<Rightarrow> cycle_inv cfg False s'
    | Thrown err s' \<Rightarrow> cycle_inv cfg False s'
    | Running s' \<Rightarrow> cycle_inv cfg False s')"
  unfolding runCycle_def
  by (rule cycle_loop_inv) (simp add: cycle_inv_def start_cycle_def)

lemma cycle_inv_distinct: "cycle_inv cfg final s \<Longrightarrow> distinct (patchHistory s)"
  by (simp add: cycle_inv_def)

lemma cycle_inv_calls:
  "cycle_inv cfg final s \<Longrightarrow> review_mode cfg = Final_only \<Longrightarrow>
     list_all (\<lambda>i. max_iterations cfg \<le> of_int i \<and> of_int i < max_iterations cfg + 1)
       (reviewer_calls s)"
  by (simp add: cycle_inv_def)

text \<open>
  Claim C1, as the code has it. When \<open>runCycle\<close> returns at a \<open>return\<close> statement of its
  loop, the last event it has emitted is a terminal event; no event before it is a
  \<open>cycle_complete\<close>, and if it reports success no event before it is terminal at all. As
  long as the cycle is in its loop, and when an exception leaves it, no terminal event has
  been emitted. Nothing is said of a cycle that leaves the loop by its condition.
\<close>

theorem runCycle_terminal_events:
  "(case runCycle turns env cfg dir w of
      Returned s \<Rightarrow>
        emitted s \<noteq> [] \<and> terminal (last (emitted s))
        \<and> list_all (\<lambda>e. \<not> is_cycle_complete e) (butlast (emitted s))
        \<and> (is_success (last (emitted s)) \<longrightarrow>
              list_all (\<lambda>e. \<not> terminal e) (butlast (emitted s)))
    | Loop_ended s \<Rightarrow> True
    | Thrown err s \<Rightarrow> list_all (\<lambda>e. \<not> terminal e) (emitted s)
    | Running s \<Rightarrow> list_all (\<lambda>e. \<not> terminal e) (emitted s))"
  using runCycle_inv [where n = turns and env = env and cfg = cfg and dir = dir and w = w]
  by (auto simp: cycle_inv_def ends_well_def quiet_events_def no_terminal_def
           split: ending.splits)

text \<open>
  Claim C4, as the code has it. \<open>max_iterations\<close> is any number. In mode \<open>final_only\<close>, every
  call of the reviewer in a cycle is made at an iteration counter \<open>i\<close> with
  \<open>max_iterations \<le> i < max_iterations + 1\<close>: the first value of the counter that is not below
  \<open>max_iterations\<close>. When \<open>max_iterations\<close> is an integer, that is the iteration whose counter
  equals \<open>max_iterations\<close>.
\<close>

theorem final_only_reviews_at_max:
  assumes "review_mode cfg = Final_only"
  shows "list_all (\<lambda>i. max_iterations cfg \<le> of_int i \<and> of_int i < max_iterations cfg + 1)
           (reviewer_calls (ending_state (runCycle turns env cfg dir w)))
         \<and> (\<forall>m. max_iterations cfg = of_int m \<longrightarrow>
                list_all (\<lambda>i. i = m)
                  (reviewer_calls (ending_state (runCycle turns env cfg dir w))))"
proof -
  obtain final where inv: "cycle_inv cfg final (ending_state (runCycle turns env cfg dir w))"
    using runCycle_inv [where n = turns and env = env and cfg = cfg and dir = dir and w = w]
    by (auto split: ending.splits)
  have a: "list_all (\<lambda>i. max_iterations cfg \<le> of_int i \<and> of_int i < max_iterations cfg + 1)
             (reviewer_calls (ending_state (runCycle turns env cfg dir w)))"
    using cycle_inv_calls [OF inv] assms by simp
  have b: "list_all (\<lambda>i. i = m) (reviewer_calls (ending_state (runCycle turns env cfg dir w)))"
    if m: "max_iterations cfg = of_int m" for m
  proof -
    have "i = m" if "(of_int m :: rat) \<le> of_int i" and "(of_int i :: rat) < of_int m + 1" for i
    proof -
      from that(1) have "m \<le> i" by simp
      moreover from that(2) have "(of_int i :: rat) < of_int (m + 1)" by simp
      then have "i < m + 1" by (simp only: of_int_less_iff)
      ultimately show ?thesis by simp
    qed
    with a m show ?thesis by (auto simp: list_all_iff)
  qed
  from a b show ?thesis by blast
qed

text \<open>
  Claim C10. At the head of every turn of the loop of \<open>runCycle\<close>, and when the cycle has
  ended, the patches of \<open>patchHistory\<close> are pairwise distinct.
\<close>

theorem patchHistory_distinct:
  "distinct (patchHistory (ending_state (runCycle turns env cfg dir w)))"
  using runCycle_inv [where n = turns and env = env and cfg = cfg and dir = dir and w = w]
  by (auto split: ending.splits dest: cycle_inv_distinct)

subsection \<open>Concrete cycles\<close>

text \<open>
  Claim C3: a turn in which the builder asks for files does not use one of the
  \<open>max_iterations\<close> attempts, and the builder is asked again. The code departs from it: the
  counter is incremented at the head of every turn, and the branch of the file request goes
  back to the test of the loop without taking the increment back, as the branch of the
  reviewer's uncertainty does. With \<open>max_iterations = 1\<close> and a builder that first asks for a
  file and would then give a patch, the loop is left after the request with the counter at 1:
  the second answer of the builder is never asked for, no patch is recorded and no terminal
  event is emitted. With \<open>max_iterations = 2\<close>, a file request followed by one patch whose
  tests fail ends the cycle with \<open>Max iterations reached\<close> at iteration 2, after a single
  patch.
\<close>

theorem file_request_consumes_iteration:
  "(case runCycle 5 scripted (example_config 1 Always) ''/ws''
           (script_of [says files_request, says first_patch] [] [exits 0, exits 0]) of
      Loop_ended s \<Rightarrow>
        iteration s = 1
        \<and> builder_answers (world s) = [says first_patch]
        \<and> patchHistory s = []
        \<and> openIssues s = [''Files provided: src/a.ts'']
        \<and> emitted s = [Status ''Starting build/review cycle...'', Status ''Iteration 1/1'',
                        Status ''Builder: analyzing request...'',
                        Status ''Builder needs files: src/a.ts'']
    | _ \<Rightarrow> False)
   \<and> (case runCycle 5 scripted (example_config 2 Always) ''/ws''
           (script_of [says files_request, says first_patch] [] [exits 0, exits 1]) of
      Returned s \<Rightarrow>
        iteration s = 2
        \<and> length (patchHistory s) = 1
        \<and> last (emitted s)
            = Cycle_complete False ''Max iterations reached with failing tests.'' 2
    | _ \<Rightarrow> False)"
  by code_simp

text \<open>
  Claim C1 as the specification words it fails twice. With \<open>max_iterations = 1\<close> and a builder
  that asks for files, \<open>runCycle\<close> returns with no terminal event. With a builder whose
  answer is not JSON, it returns with two \<open>error\<close> events.
\<close>

theorem runCycle_terminal_events_not_one:
  "has_returned (runCycle 5 scripted (example_config 1 Always) ''/ws''
                   (script_of [says files_request] [] []))
   \<and> filter terminal
         (emitted (ending_state (runCycle 5 scripted (example_config 1 Always) ''/ws''
                                   (script_of [says files_request] [] [])))) = []
   \<and> has_returned
         (runCycle 5 scripted (example_config 1 Always) ''/ws''
            (script_of [\<lparr>chunks = [''{''],
                          answer = Inr (Inl ''Unexpected end of JSON input'')\<rparr>] [] []))
   \<and> filter terminal
         (emitted (ending_state
            (runCycle 5 scripted (example_config 1 Always) ''/ws''
               (script_of [\<lparr>chunks = [''{''],
                             answer = Inr (Inl ''Unexpected end of JSON input'')\<rparr>] [] []))))
       = [Error_event ''Failed to parse JSON: Unexpected end of JSON input'',
          Error_event ''Builder produced invalid response'']"
  by code_simp

text \<open>The theorem of claim C1 at a cycle whose first patch is approved.\<close>

theorem runCycle_terminal_events_witness:
  "(case runCycle 5 scripted (example_config 3 Always) ''/ws''
           (script_of [says first_patch] [says approving_review] [exits 0, exits 0]) of
      Returned s \<Rightarrow>
        last (emitted s) = Cycle_complete True ''Implementation approved! fine'' 1
        \<and> is_success (last (emitted s))
        \<and> list_all (\<lambda>e. \<not> terminal e) (butlast (emitted s))
    | _ \<Rightarrow> False)"
proof -
  have h: "(case runCycle 5 scripted (example_config 3 Always) ''/ws''
           (script_of [says first_patch] [says approving_review] [exits 0, exits 0]) of
      Returned s \<Rightarrow> last (emitted s) = Cycle_complete True ''Implementation approved! fine'' 1
    | _ \<Rightarrow> False)"
    by code_simp
  show ?thesis
    using h runCycle_terminal_events [where turns = 5 and env = scripted
        and cfg = "example_config 3 Always" and dir = "''/ws''"
        and w = "script_of [says first_patch] [says approving_review] [exits 0, exits 0]"]
    by (auto split: ending.splits)
qed

text \<open>The theorem of claim C4 at a cycle of two iterations, reviewed at the second.\<close>

theorem final_only_reviews_at_max_witness:
  "review_mode (example_config 2 Final_only) = Final_only
   \<and> max_iterations (example_config 2 Final_only) = of_int 2
   \<and> reviewer_calls (ending_state (runCycle 5 scripted (example_config 2 Final_only) ''/ws''
        (script_of [says first_patch, says second_patch] [says approving_review]
           [exits 0, exits 1, exits 0, exits 0]))) = [2]
   \<and> list_all (\<lambda>i. i = 2)
        (reviewer_calls (ending_state (runCycle 5 scripted (example_config 2 Final_only) ''/ws''
           (script_of [says first_patch, says second_patch] [says approving_review]
              [exits 0, exits 1, exits 0, exits 0]))))"
proof -
  have h: "review_mode (example_config 2 Final_only) = Final_only"
    by (simp add: example_config_def)
  have m: "max_iterations (example_config 2 Final_only) = of_int 2"
    by (simp add: example_config_def)
  have c: "reviewer_calls (ending_state (runCycle 5 scripted (example_config 2 Final_only) ''/ws''
        (script_of [says first_patch, says second_patch] [says approving_review]
           [exits 0, exits 1, exits 0, exits 0]))) = [2]"
    by code_simp
  show ?thesis
    using h m c final_only_reviews_at_max [OF h, where turns = 5 and env = scripted
        and dir = "''/ws''"
        and w = "script_of [says first_patch, says second_patch] [says approving_review]
           [exits 0, exits 1, exits 0, exits 0]"]
    by simp
qed

text \<open>
  Claim C4 as the specification words it fails twice. In mode \<open>final_only\<close> with
  \<open>max_iterations = 1\<close>, a reviewer that first blocks for uncertainty is called twice, both
  times at iteration 1. With \<open>max_iterations = 5/2\<close>, which the schema of the configuration
  accepts, the reviewer is called at iteration 3, which is not \<open>max_iterations\<close>.
\<close>

theorem final_only_reviews_twice:
  "review_mode (example_config 1 Final_only) = Final_only
   \<and> reviewer_calls (ending_state (runCycle 5 scripted (example_config 1 Final_only) ''/ws''
        (script_of [says first_patch, says second_patch]
           [says uncertain_review, says approving_review]
           [exits 0, exits 0, exits 0, exits 0, exits 0]))) = [1, 1]
   \<and> review_mode (example_config (5 / 2) Final_only) = Final_only
   \<and> reviewer_calls (ending_state (runCycle 5 scripted (example_config (5 / 2) Final_only) ''/ws''
        (script_of [says first_patch, says second_patch, says third_patch]
           [says approving_review]
           [exits 0, exits 1, exits 0, exits 1, exits 0, exits 0]))) = [3]"
  by code_simp

text \<open>The theorem of claim C10 at a cycle that records two patches.\<close>

theorem patchHistory_distinct_witness:
  "patchHistory (ending_state (runCycle 5 scripted (example_config 1 Final_only) ''/ws''
        (script_of [says first_patch, says second_patch]
           [says uncertain_review, says approving_review]
           [exits 0, exits 0, exits 0, exits 0, exits 0])))
     = [''--- a/src/sub/a.ts\<newline>+++ b/src/sub/a.ts\<newline>+x'',
        ''--- a/src/sub/a.ts\<newline>+++ b/src/sub/a.ts\<newline>+y'']
   \<and> distinct (patchHistory (ending_state (runCycle 5 scripted (example_config 1 Final_only) ''/ws''
        (script_of [says first_patch, says second_patch]
           [says uncertain_review, says approving_review]
           [exits 0, exits 0, exits 0, exits 0, exits 0]))))"
proof -
  have c: "patchHistory (ending_state (runCycle 5 scripted (example_config 1 Final_only) ''/ws''
        (script_of [says first_patch, says second_patch]
           [says uncertain_review, says approving_review]
           [exits 0, exits 0, exits 0, exits 0, exits 0])))
     = [''--- a/src/sub/a.ts\<newline>+++ b/src/sub/a.ts\<newline>+x'',
        ''--- a/src/sub/a.ts\<newline>+++ b/src/sub/a.ts\<newline>+y'']"
    by code_simp
  show ?thesis
    using c patchHistory_distinct [where turns = 5 and env = scripted
        and cfg = "example_config 1 Final_only" and dir = "''/ws''"
        and w = "script_of [says first_patch, says second_patch]
           [says uncertain_review, says approving_review]
           [exits 0, exits 0, exits 0, exits 0, exits 0]"]
    by simp
qed

end
